theory Spec2Isabelle
  imports Main
begin

section \<open>The Zabbix template validator (validate-zabbix-template.py)\<close>

text \<open>
  The program parses one XML export file, walks the element tree and collects findings
  in three lists (errors, warnings, info); \<open>validate\<close> returns whether the error list
  is empty. The embedding follows the source function by function. What the source gets
  from Python itself (\<open>str\<close> methods, \<open>int\<close>, \<open>float\<close>, \<open>re\<close>, the element tree) is
  modelled in the first subsections, for texts of ASCII characters: a text is a
  \<open>string\<close>, one \<open>char\<close> per character. Console output (\<open>print\<close>) is not part of the
  model, except where evaluating the printed expression can raise.
\<close>

subsection \<open>Python strings\<close>

definition ord :: "char \<Rightarrow> nat" where
  "ord c = of_char c"

definition in_range :: "char \<Rightarrow> char \<times> char \<Rightarrow> bool" where
  "in_range c r = (ord (fst r) \<le> ord c \<and> ord c \<le> ord (snd r))"

definition is_digit :: "char \<Rightarrow> bool" where
  "is_digit c = in_range c (CHR ''0'', CHR ''9'')"

definition digit_value :: "char \<Rightarrow> int" where
  "digit_value c = int (ord c) - 48"

text \<open>\<open>str.lower\<close> and \<open>str.upper\<close> on one ASCII character.\<close>

definition lower :: "char \<Rightarrow> char" where
  "lower c = (if in_range c (CHR ''A'', CHR ''Z'') then char_of (ord c + 32) else c)"

definition upper :: "char \<Rightarrow> char" where
  "upper c = (if in_range c (CHR ''a'', CHR ''z'') then char_of (ord c - 32) else c)"

text \<open>
  The white space that \<open>int\<close> and \<open>float\<close> skip at both ends of an ASCII text: tab, line
  feed, vertical tab, form feed, carriage return and space.
\<close>

definition is_space :: "char \<Rightarrow> bool" where
  "is_space c = (c = CHR 0x09 \<or> c = CHR 0x0A \<or> c = CHR 0x0B \<or> c = CHR 0x0C
     \<or> c = CHR 0x0D \<or> c = CHR 0x20)"

definition strip :: "string \<Rightarrow> string" where
  "strip s = rev (dropWhile is_space (rev (dropWhile is_space s)))"

text \<open>
  \<open>s.split(sep)\<close> for a separator of one character: the pieces between the separators,
  never an empty list.
\<close>

fun py_split :: "char \<Rightarrow> string \<Rightarrow> string list" where
  "py_split sep [] = [[]]"
| "py_split sep (c # cs) =
     (if c = sep then [] # py_split sep cs
      else (case py_split sep cs of
              [] \<Rightarrow> [[c]]
            | w # ws \<Rightarrow> (c # w) # ws))"

text \<open>An f-string field \<open>{x}\<close> prints a missing text as \<open>None\<close>.\<close>

definition fmt :: "string option \<Rightarrow> string" where
  "fmt x = (case x of None \<Rightarrow> ''None'' | Some s \<Rightarrow> s)"

text \<open>\<open>str(n)\<close> for an integer: its decimal digits, with a minus sign when negative.\<close>

fun digits_of :: "nat \<Rightarrow> string" where
  "digits_of n =
     (if n < 10 then [char_of (48 + n)]
      else digits_of (n div 10) @ [char_of (48 + n mod 10)])"

definition str_int :: "int \<Rightarrow> string" where
  "str_int i = (if i < 0 then CHR ''-'' # digits_of (nat (- i)) else digits_of (nat i))"

subsection \<open>Number parsing: \<open>int(text)\<close> and \<open>float(text)\<close>\<close>

text \<open>
  Both accept underscores between digits: every underscore has a digit before it and a
  digit after it. \<open>drop_underscores prev s\<close> removes them, or fails (the \<open>ValueError\<close>
  of the caller) when one is misplaced; \<open>prev\<close> is the character read last.
\<close>

fun drop_underscores :: "char \<Rightarrow> string \<Rightarrow> string option" where
  "drop_underscores prev [] = (if prev = CHR ''_'' then None else Some [])"
| "drop_underscores prev (c # cs) =
     (if c = CHR ''_'' then
        (if is_digit prev then drop_underscores c cs else None)
      else if prev = CHR ''_'' \<and> \<not> is_digit c then None
      else map_option (Cons c) (drop_underscores c cs))"

definition int_of_digits :: "string \<Rightarrow> int" where
  "int_of_digits ds = foldl (\<lambda>n d. 10 * n + digit_value d) 0 ds"

text \<open>An optional sign: \<open>(negative, rest)\<close>.\<close>

definition take_sign :: "string \<Rightarrow> bool \<times> string" where
  "take_sign s =
     (case s of
        [] \<Rightarrow> (False, [])
      | c # cs \<Rightarrow> if c = CHR ''-'' then (True, cs)
                 else if c = CHR ''+'' then (False, cs)
                 else (False, s))"

text \<open>
  \<open>int(text)\<close> in base 10: \<open>None\<close> is the \<open>ValueError\<close>. (The \<open>TypeError\<close> of
  \<open>int(None)\<close> is raised by the callers below, which hold the optional text. The limit
  that newer interpreters put on the number of digits is not modelled.)
\<close>

definition py_int :: "string \<Rightarrow> int option" where
  "py_int s =
     (case drop_underscores (CHR 0x00) (strip s) of
        None \<Rightarrow> None
      | Some t \<Rightarrow>
          (let (neg, ds) = take_sign t in
           if ds \<noteq> [] \<and> list_all is_digit ds
           then Some (if neg then - int_of_digits ds else int_of_digits ds)
           else None))"

text \<open>
  A float as far as the source looks at it: the source compares the parsed number with
  \<open>7.0\<close> and does nothing else with it. \<open>Decimal m e\<close> is the decimal number
  \<open>m * 10 ^ e\<close> that the text denotes, before it is rounded to a double.
\<close>

datatype pyfloat = Decimal int int | Infinity bool | NaN

text \<open>
  The exponent part of a float literal, after the mantissa: empty, or \<open>e\<close>/\<open>E\<close>, an
  optional sign and at least one digit.
\<close>

definition exponent :: "string \<Rightarrow> int option" where
  "exponent s =
     (case s of
        [] \<Rightarrow> Some 0
      | c # cs \<Rightarrow>
          if lower c = CHR ''e'' then
            (let (neg, ds) = take_sign cs in
             if ds \<noteq> [] \<and> list_all is_digit ds
             then Some (if neg then - int_of_digits ds else int_of_digits ds)
             else None)
          else None)"

text \<open>
  An unsigned float literal: digits, an optional point with more digits (at least one
  digit in all), an optional exponent.
\<close>

definition unsigned_float :: "string \<Rightarrow> (int \<times> int) option" where
  "unsigned_float s =
     (let ip = takeWhile is_digit s;
          r1 = dropWhile is_digit s;
          has_point = (r1 \<noteq> [] \<and> hd r1 = CHR ''.'');
          r2 = (if has_point then tl r1 else r1);
          fp = (if has_point then takeWhile is_digit r2 else []);
          r3 = (if has_point then dropWhile is_digit r2 else r2)
      in if ip = [] \<and> fp = [] then None
         else (case exponent r3 of
                 None \<Rightarrow> None
               | Some e \<Rightarrow> Some (int_of_digits (ip @ fp), e - int (length fp))))"

text \<open>\<open>float(text)\<close>: \<open>None\<close> is the \<open>ValueError\<close>.\<close>

definition py_float :: "string \<Rightarrow> pyfloat option" where
  "py_float s =
     (case drop_underscores (CHR 0x00) (strip s) of
        None \<Rightarrow> None
      | Some t \<Rightarrow>
          (let (neg, u) = take_sign t; w = map lower u in
           if w = ''inf'' \<or> w = ''infinity'' then Some (Infinity neg)
           else if w = ''nan'' then Some NaN
           else (case unsigned_float u of
                   None \<Rightarrow> None
                 | Some (m, e) \<Rightarrow> Some (Decimal (if neg then - m else m) e))))"

text \<open>
  \<open>x < 7.0\<close> for a parsed float. The double below \<open>7.0\<close> is \<open>7 - 2^-50\<close>, and a decimal
  number is rounded to the nearest double, to \<open>7.0\<close> from the midpoint \<open>7 - 2^-51\<close> on
  (ties go to the even mantissa, which is that of \<open>7.0\<close>). So the rounded number is
  below \<open>7.0\<close> exactly when the decimal number is below \<open>7 - 2^-51\<close>. A NaN compares
  false.
\<close>

definition lt_seven :: "pyfloat \<Rightarrow> bool" where
  "lt_seven x =
     (case x of
        NaN \<Rightarrow> False
      | Infinity neg \<Rightarrow> neg
      | Decimal m e \<Rightarrow>
          if 0 \<le> e then m * 10 ^ nat e < 7
          else m * 2 ^ 51 < (7 * 2 ^ 51 - 1) * 10 ^ nat (- e))"

subsection \<open>Regular expressions\<close>

text \<open>
  The three patterns of the source are sequences of single characters, character
  classes, \<open>+\<close> and \<open>{n}\<close> on a class, and a final \<open>$\<close>. A pattern is the list of its
  items; \<open>match_here\<close> says whether some prefix of the text matches it, trying every
  length a \<open>+\<close> can take.
\<close>

datatype cclass = Lit char | NotLit char | Ranges "(char \<times> char) list"

datatype item = One cclass | OneOrMore cclass | Exactly nat cclass | Dollar

text \<open>Whether a character is in a class; \<open>ic\<close> is the flag \<open>re.IGNORECASE\<close>.\<close>

fun in_class :: "bool \<Rightarrow> cclass \<Rightarrow> char \<Rightarrow> bool" where
  "in_class ic (Lit l) c = (c = l \<or> (ic \<and> lower c = lower l))"
| "in_class ic (NotLit l) c = (\<not> (c = l \<or> (ic \<and> lower c = lower l)))"
| "in_class ic (Ranges rs) c =
     (list_ex (in_range c) rs
      \<or> (ic \<and> (list_ex (in_range (lower c)) rs \<or> list_ex (in_range (upper c)) rs)))"

text \<open>
  \<open>$\<close> matches at the end of the text and just before a line feed that ends the text.
\<close>

fun match_here :: "bool \<Rightarrow> item list \<Rightarrow> string \<Rightarrow> bool" where
  "match_here ic [] s = True"
| "match_here ic (Dollar # p) s = ((s = [] \<or> s = [CHR 0x0A]) \<and> match_here ic p s)"
| "match_here ic (One k # p) s =
     (case s of [] \<Rightarrow> False | c # t \<Rightarrow> in_class ic k c \<and> match_here ic p t)"
| "match_here ic (Exactly n k # p) s =
     (n \<le> length s \<and> list_all (in_class ic k) (take n s) \<and> match_here ic p (drop n s))"
| "match_here ic (OneOrMore k # p) s =
     (case s of
        [] \<Rightarrow> False
      | c # t \<Rightarrow> in_class ic k c \<and> (match_here ic (OneOrMore k # p) t \<or> match_here ic p t))"

text \<open>
  \<open>re.match\<close> tries the pattern at the start of the text only (a leading \<open>^\<close> adds
  nothing to it); \<open>re.search\<close> tries it at every position.
\<close>

definition re_match :: "bool \<Rightarrow> item list \<Rightarrow> string \<Rightarrow> bool" where
  "re_match ic p s = match_here ic p s"

fun re_search :: "bool \<Rightarrow> item list \<Rightarrow> string \<Rightarrow> bool" where
  "re_search ic p [] = match_here ic p []"
| "re_search ic p (c # t) = (match_here ic p (c # t) \<or> re_search ic p t)"

subsection \<open>The element tree\<close>

text \<open>
  An element as \<open>xml.etree.ElementTree\<close> gives it: its tag, its text (\<open>None\<close> for an
  element without character data before its first child, as in \<open><version/>\<close>) and its
  child elements in document order. The source reads nothing else of an element.
\<close>

datatype element = Element (tag: string) (text_of: "string option") (children: "element list")

text \<open>\<open>e.find(t)\<close>: the first child with tag \<open>t\<close>; \<open>e.findall(t)\<close>: all of them.\<close>

definition find_child :: "string \<Rightarrow> element \<Rightarrow> element option" where
  "find_child t e = List.find (\<lambda>c. tag c = t) (children e)"

definition findall :: "string \<Rightarrow> element \<Rightarrow> element list" where
  "findall t e = filter (\<lambda>c. tag c = t) (children e)"

subsection \<open>The validator object and its findings\<close>

text \<open>
  The fields of \<open>ZabbixTemplateValidator\<close> that the checks read or write. (\<open>file_path\<close>
  and \<open>tree\<close> are used for parsing and printing only.)
\<close>

record validator =
  errors :: "string list"
  warnings :: "string list"
  info :: "string list"
  root :: "element option"

text \<open>\<open>__init__\<close>.\<close>

definition new_validator :: validator where
  "new_validator = \<lparr>errors = [], warnings = [], info = [], root = None\<rparr>"

definition add_error :: "string \<Rightarrow> validator \<Rightarrow> validator" where
  "add_error m self = self\<lparr>errors := errors self @ [m]\<rparr>"

definition add_warning :: "string \<Rightarrow> validator \<Rightarrow> validator" where
  "add_warning m self = self\<lparr>warnings := warnings self @ [m]\<rparr>"

definition add_info :: "string \<Rightarrow> validator \<Rightarrow> validator" where
  "add_info m self = self\<lparr>info := info self @ [m]\<rparr>"

text \<open>
  The exceptions that escape the checks: no \<open>except\<close> clause of the source catches
  them, so they end \<open>validate\<close> and the program. A check returns \<open>Inl\<close> the exception
  or \<open>Inr\<close> the validator as it leaves it.
\<close>

datatype exn = AttributeError | TypeError

definition and_then :: "exn + 'a \<Rightarrow> ('a \<Rightarrow> exn + 'b) \<Rightarrow> exn + 'b" where
  "and_then m f = (case m of Inl e \<Rightarrow> Inl e | Inr x \<Rightarrow> f x)"

text \<open>A \<open>for\<close> loop whose body is one check and which keeps no variable of its own.\<close>

fun for_each :: "(validator \<Rightarrow> 'a \<Rightarrow> exn + validator) \<Rightarrow> validator \<Rightarrow> 'a list
    \<Rightarrow> exn + validator" where
  "for_each body self [] = Inr self"
| "for_each body self (x # xs) = and_then (body self x) (\<lambda>self'. for_each body self' xs)"

subsection \<open>The messages\<close>

text \<open>
  The marks that start a message, as their UTF-8 bytes: the cross mark (U+274C), the
  warning sign (U+26A0) and the check mark (U+2713). \<open>sq\<close> is the single quote.
\<close>

definition cross :: string where
  "cross = [CHR 0xE2, CHR 0x9D, CHR 0x8C]"

definition warn :: string where
  "warn = [CHR 0xE2, CHR 0x9A, CHR 0xA0]"

definition check :: string where
  "check = [CHR 0xE2, CHR 0x9C, CHR 0x93]"

definition sq :: string where
  "sq = [CHR 0x27]"

definition msg_parse_error :: "string \<Rightarrow> string" where
  "msg_parse_error e = cross @ '' XML parsing error: '' @ e"

definition msg_read_error :: "string \<Rightarrow> string" where
  "msg_read_error e = cross @ '' Error reading file: '' @ e"

definition msg_root :: "string \<Rightarrow> string" where
  "msg_root t = cross @ '' Root element must be '' @ sq @ ''zabbix_export'' @ sq
     @ '', found '' @ sq @ t @ sq"

definition msg_missing_version :: string where
  "msg_missing_version = cross @ '' Missing <version> element''"

definition msg_old_version :: "string \<Rightarrow> string" where
  "msg_old_version v = warn @ '' Zabbix version '' @ v @ '' is older than 7.0''"

definition msg_unparsed_version :: "string \<Rightarrow> string" where
  "msg_unparsed_version v = warn @ '' Could not parse version: '' @ v"

definition msg_missing_templates :: string where
  "msg_missing_templates = cross @ '' Missing <templates> element''"

definition msg_no_templates :: string where
  "msg_no_templates = warn @ '' No templates found in file''"

definition msg_missing_template_name :: string where
  "msg_missing_template_name = ''    '' @ cross @ '' Missing template name''"

definition msg_missing_uuid :: string where
  "msg_missing_uuid = ''    '' @ warn @ '' Missing UUID (recommended for Zabbix 7.0+)''"

definition msg_invalid_uuid :: "string \<Rightarrow> string" where
  "msg_invalid_uuid u = ''    '' @ cross @ '' Invalid UUID format: '' @ u"

definition msg_no_groups :: string where
  "msg_no_groups = ''    '' @ warn @ '' No template groups defined''"

definition msg_group_missing_name :: string where
  "msg_group_missing_name = ''      '' @ cross @ '' Group missing name''"

definition msg_item_missing_name :: string where
  "msg_item_missing_name = ''      '' @ cross @ '' Item missing name''"

definition msg_item_missing_key :: string where
  "msg_item_missing_key = ''      '' @ cross @ '' Item missing key''"

definition msg_item_key_spaces :: "string \<Rightarrow> string" where
  "msg_item_key_spaces k = ''      '' @ warn @ '' Item key contains spaces: '' @ sq @ k @ sq
     @ '' (use dots or underscores instead)''"

definition msg_duplicate_item_key :: "string \<Rightarrow> string" where
  "msg_duplicate_item_key k = ''      '' @ cross @ '' Duplicate item key: '' @ sq @ k @ sq"

definition msg_item_missing_value_type :: string where
  "msg_item_missing_value_type = ''      '' @ cross @ '' Item missing value_type''"

definition msg_unusual_value_type :: "int \<Rightarrow> string" where
  "msg_unusual_value_type v = ''      '' @ warn @ '' Unusual numeric value_type: '' @ str_int v"

definition msg_unknown_value_type :: "string \<Rightarrow> string" where
  "msg_unknown_value_type v = ''      '' @ warn @ '' Unknown string value_type: '' @ sq @ v @ sq"

definition msg_rule_missing_name :: string where
  "msg_rule_missing_name = ''      '' @ cross @ '' Discovery rule missing name''"

definition msg_rule_missing_key :: string where
  "msg_rule_missing_key = ''      '' @ cross @ '' Discovery rule missing key''"

definition msg_duplicate_rule_key :: "string \<Rightarrow> string" where
  "msg_duplicate_rule_key k =
     ''      '' @ cross @ '' Duplicate discovery rule key: '' @ sq @ k @ sq"

definition msg_no_prototypes :: string where
  "msg_no_prototypes = ''      '' @ warn @ '' Discovery rule has no item prototypes''"

definition msg_trigger_missing_name :: string where
  "msg_trigger_missing_name = ''      '' @ cross @ '' Trigger missing name''"

definition msg_trigger_missing_expression :: string where
  "msg_trigger_missing_expression = ''      '' @ cross @ '' Trigger missing expression''"

definition msg_duplicate_expression :: "string \<Rightarrow> string" where
  "msg_duplicate_expression x =
     ''      '' @ warn @ '' Duplicate trigger expression: '' @ sq @ x @ ''...'' @ sq"

definition msg_trigger_missing_priority :: string where
  "msg_trigger_missing_priority = ''      '' @ warn @ '' Trigger missing priority''"

definition msg_invalid_priority :: "int \<Rightarrow> string" where
  "msg_invalid_priority v =
     ''      '' @ warn @ '' Invalid priority value: '' @ str_int v @ '' (should be 0-5)''"

definition msg_unknown_priority :: "string \<Rightarrow> string" where
  "msg_unknown_priority v = ''      '' @ warn @ '' Unknown string priority: '' @ sq @ v @ sq"

definition msg_empty_expression :: string where
  "msg_empty_expression = ''      '' @ cross @ '' Empty trigger expression''"

definition msg_unmatched_parentheses :: string where
  "msg_unmatched_parentheses =
     ''      '' @ cross @ '' Unmatched parentheses in trigger expression''"

definition msg_unmatched_braces :: string where
  "msg_unmatched_braces = ''      '' @ cross @ '' Unmatched braces in trigger expression''"

definition msg_old_style_expression :: string where
  "msg_old_style_expression = ''      '' @ warn
     @ '' Possible old-style trigger expression detected (Zabbix 7.0 uses new syntax)''"

definition msg_macro_missing_name :: string where
  "msg_macro_missing_name = ''      '' @ cross @ '' Macro missing name''"

text \<open>
  The second literal of this message is not an f-string, so its doubled braces are
  printed as they stand.
\<close>

definition msg_macro_convention :: "string \<Rightarrow> string" where
  "msg_macro_convention n = ''      '' @ warn @ '' Macro name doesn'' @ sq
     @ ''t follow convention: '' @ sq @ n @ sq
     @ '' (should be {{$UPPERCASE_WITH_UNDERSCORES}})''"

definition msg_duplicate_macro :: "string \<Rightarrow> string" where
  "msg_duplicate_macro n = ''      '' @ cross @ '' Duplicate macro: '' @ sq @ n @ sq"

definition msg_macro_no_value :: "string \<Rightarrow> string" where
  "msg_macro_no_value n = ''      '' @ warn @ '' Macro '' @ sq @ n @ sq @ '' has no value''"

subsection \<open>Parsing, root and version checks\<close>

text \<open>
  What \<open>ET.parse\<close> does with the file is the parser's business: it raises
  \<open>ParseError\<close>, raises something else (the file cannot be read), or gives the tree.
  The two failures carry the text of the exception.
\<close>

datatype parse_outcome = ParseError string | OtherError string | Parsed element

definition parse_xml :: "parse_outcome \<Rightarrow> validator \<Rightarrow> bool \<times> validator" where
  "parse_xml src self =
     (case src of
        Parsed r \<Rightarrow>
          (True, add_info (check @ '' XML parsing successful'') (self\<lparr>root := Some r\<rparr>))
      | ParseError e \<Rightarrow> (False, add_error (msg_parse_error e) self)
      | OtherError e \<Rightarrow> (False, add_error (msg_read_error e) self))"

definition validate_root_structure :: "validator \<Rightarrow> exn + validator" where
  "validate_root_structure self =
     (case root self of
        None \<Rightarrow> Inl AttributeError
      | Some r \<Rightarrow>
          if tag r \<noteq> ''zabbix_export'' then Inr (add_error (msg_root (tag r)) self)
          else Inr (add_info (check @ '' Root element is '' @ sq @ ''zabbix_export'' @ sq) self))"

text \<open>
  \<open>version_text.split('.')\<close> raises \<open>AttributeError\<close> when the text is \<open>None\<close>; the
  \<open>except\<close> clause catches \<open>ValueError\<close> (from \<open>float\<close>) and \<open>IndexError\<close> (from
  \<open>[0]\<close>) only.
\<close>

definition validate_version :: "validator \<Rightarrow> exn + validator" where
  "validate_version self =
     (case root self of
        None \<Rightarrow> Inl AttributeError
      | Some r \<Rightarrow>
          (case find_child ''version'' r of
             None \<Rightarrow> Inr (add_error msg_missing_version self)
           | Some version \<Rightarrow>
               (let version_text = text_of version;
                    self1 = add_info (check @ '' Zabbix version: '' @ fmt version_text) self
                in case version_text of
                     None \<Rightarrow> Inl AttributeError
                   | Some vt \<Rightarrow>
                       (case py_split (CHR ''.'') vt of
                          [] \<Rightarrow> Inr (add_warning (msg_unparsed_version vt) self1)
                        | major # _ \<Rightarrow>
                            (case py_float major of
                               None \<Rightarrow> Inr (add_warning (msg_unparsed_version vt) self1)
                             | Some major_version \<Rightarrow>
                                 if lt_seven major_version
                                 then Inr (add_warning (msg_old_version vt) self1)
                                 else Inr self1)))))"

subsection \<open>Groups\<close>

definition validate_group :: "validator \<Rightarrow> element \<Rightarrow> exn + validator" where
  "validate_group self grp =
     (if find_child ''name'' grp = None then Inr (add_error msg_group_missing_name self)
      else Inr self)"

definition validate_groups :: "validator \<Rightarrow> element \<Rightarrow> exn + validator" where
  "validate_groups self groups = for_each validate_group self (findall ''group'' groups)"

subsection \<open>Items\<close>

definition valid_numeric :: "int list" where
  "valid_numeric = [0, 1, 2, 3, 4, 15, 16]"

definition valid_string :: "string list" where
  "valid_string = [''FLOAT'', ''CHAR'', ''LOG'', ''UNSIGNED'', ''TEXT'', ''BINARY'', ''STR'']"

text \<open>
  The three parts of the loop body. \<open>' ' in key_text\<close> and \<open>int(vtype_text)\<close> raise
  \<open>TypeError\<close> when the text is \<open>None\<close>.
\<close>

definition item_name_check :: "validator \<Rightarrow> element \<Rightarrow> validator" where
  "item_name_check self item =
     (if find_child ''name'' item = None then add_error msg_item_missing_name self else self)"

definition item_key_check :: "string set \<Rightarrow> validator \<Rightarrow> element
    \<Rightarrow> exn + (string set \<times> validator)" where
  "item_key_check seen_keys self item =
     (case find_child ''key'' item of
        None \<Rightarrow> Inr (seen_keys, add_error msg_item_missing_key self)
      | Some key \<Rightarrow>
          (case text_of key of
             None \<Rightarrow> Inl TypeError
           | Some key_text \<Rightarrow>
               (let self1 = (if CHR '' '' \<in> set key_text
                             then add_warning (msg_item_key_spaces key_text) self else self);
                    self2 = (if key_text \<in> seen_keys
                             then add_error (msg_duplicate_item_key key_text) self1 else self1)
                in Inr (insert key_text seen_keys, self2))))"

definition item_value_type_check :: "validator \<Rightarrow> element \<Rightarrow> exn + validator" where
  "item_value_type_check self item =
     (case find_child ''value_type'' item of
        None \<Rightarrow> Inr (add_error msg_item_missing_value_type self)
      | Some value_type \<Rightarrow>
          (case text_of value_type of
             None \<Rightarrow> Inl TypeError
           | Some vtype_text \<Rightarrow>
               (case py_int vtype_text of
                  Some vtype \<Rightarrow>
                    Inr (if vtype \<notin> set valid_numeric
                         then add_warning (msg_unusual_value_type vtype) self else self)
                | None \<Rightarrow>
                    Inr (if vtype_text \<notin> set valid_string
                         then add_warning (msg_unknown_value_type vtype_text) self else self))))"

text \<open>The loop, with its variable \<open>seen_keys\<close>; \<open>validate_items\<close> starts it empty.\<close>

fun items_loop :: "string set \<Rightarrow> validator \<Rightarrow> element list \<Rightarrow> exn + validator" where
  "items_loop seen_keys self [] = Inr self"
| "items_loop seen_keys self (item # rest) =
     and_then (item_key_check seen_keys (item_name_check self item) item)
       (\<lambda>(seen_keys', self2).
          and_then (item_value_type_check self2 item)
            (\<lambda>self3. items_loop seen_keys' self3 rest))"

definition validate_items :: "validator \<Rightarrow> element list \<Rightarrow> exn + validator" where
  "validate_items self items = items_loop {} self items"

subsection \<open>Discovery rules\<close>

text \<open>
  Here the key text is only compared and formatted, so a \<open>None\<close> passes through: it is
  a member of \<open>seen_keys\<close> like any text.
\<close>

definition rule_key_check :: "string option set \<Rightarrow> validator \<Rightarrow> element
    \<Rightarrow> string option set \<times> validator" where
  "rule_key_check seen_keys self rule =
     (case find_child ''key'' rule of
        None \<Rightarrow> (seen_keys, add_error msg_rule_missing_key self)
      | Some key \<Rightarrow>
          (let key_text = text_of key;
               self1 = (if key_text \<in> seen_keys
                        then add_error (msg_duplicate_rule_key (fmt key_text)) self else self)
           in (insert key_text seen_keys, self1)))"

definition rule_prototypes_check :: "validator \<Rightarrow> element \<Rightarrow> validator" where
  "rule_prototypes_check self rule =
     (case find_child ''item_prototypes'' rule of
        None \<Rightarrow> self
      | Some item_prototypes \<Rightarrow>
          if length (findall ''item_prototype'' item_prototypes) = 0
          then add_warning msg_no_prototypes self else self)"

fun rules_loop :: "string option set \<Rightarrow> validator \<Rightarrow> element list \<Rightarrow> exn + validator" where
  "rules_loop seen_keys self [] = Inr self"
| "rules_loop seen_keys self (rule # rest) =
     (let self1 = (if find_child ''name'' rule = None
                   then add_error msg_rule_missing_name self else self);
          (seen_keys', self2) = rule_key_check seen_keys self1 rule
      in rules_loop seen_keys' (rule_prototypes_check self2 rule) rest)"

definition validate_discovery_rules :: "validator \<Rightarrow> element list \<Rightarrow> exn + validator" where
  "validate_discovery_rules self rules = rules_loop {} self rules"

subsection \<open>Triggers\<close>

text \<open>The pattern \<open>\{[^}]+:[^}]+\.[^}]+\(\)\}\<close> of the old expression syntax.\<close>

definition old_style_pattern :: "item list" where
  "old_style_pattern =
     [One (Lit (CHR ''{'')), OneOrMore (NotLit (CHR ''}'')), One (Lit (CHR '':'')),
      OneOrMore (NotLit (CHR ''}'')), One (Lit (CHR ''.'')), OneOrMore (NotLit (CHR ''}'')),
      One (Lit (CHR ''('')), One (Lit (CHR '')'')), One (Lit (CHR ''}''))]"

text \<open>
  The argument is the text of the expression element, which may be \<open>None\<close>:
  \<open>not expression\<close> holds for \<open>None\<close> and for the empty text.
\<close>

definition validate_trigger_expression :: "validator \<Rightarrow> string option \<Rightarrow> validator" where
  "validate_trigger_expression self expression =
     (case expression of
        None \<Rightarrow> add_error msg_empty_expression self
      | Some e \<Rightarrow>
          if e = [] then add_error msg_empty_expression self
          else
            (let self1 = (if count_list e (CHR ''('') \<noteq> count_list e (CHR '')'')
                          then add_error msg_unmatched_parentheses self else self);
                 self2 = (if count_list e (CHR ''{'') \<noteq> count_list e (CHR ''}'')
                          then add_error msg_unmatched_braces self1 else self1)
             in if re_search False old_style_pattern e
                then add_warning msg_old_style_expression self2 else self2))"

text \<open>
  The duplicate warning formats \<open>expr_text[:50]\<close>, which raises \<open>TypeError\<close> when the
  text is \<open>None\<close>; the membership test and \<open>add\<close> before and after it take a \<open>None\<close>
  like any text.
\<close>

definition trigger_expression_check :: "string option set \<Rightarrow> validator \<Rightarrow> element
    \<Rightarrow> exn + (string option set \<times> validator)" where
  "trigger_expression_check seen_expressions self trigger =
     (case find_child ''expression'' trigger of
        None \<Rightarrow> Inr (seen_expressions, add_error msg_trigger_missing_expression self)
      | Some expression \<Rightarrow>
          (let expr_text = text_of expression in
           and_then
             (if expr_text \<in> seen_expressions then
                (case expr_text of
                   None \<Rightarrow> Inl TypeError
                 | Some x \<Rightarrow> Inr (add_warning (msg_duplicate_expression (take 50 x)) self))
              else Inr self)
             (\<lambda>self1. Inr (insert expr_text seen_expressions,
                            validate_trigger_expression self1 expr_text))))"

definition valid_priorities :: "string list" where
  "valid_priorities =
     [''NOT_CLASSIFIED'', ''INFO'', ''WARNING'', ''AVERAGE'', ''HIGH'', ''DISASTER'']"

text \<open>\<open>int(priority_text)\<close> raises \<open>TypeError\<close> when the text is \<open>None\<close>.\<close>

definition trigger_priority_check :: "validator \<Rightarrow> element \<Rightarrow> exn + validator" where
  "trigger_priority_check self trigger =
     (case find_child ''priority'' trigger of
        None \<Rightarrow> Inr (add_warning msg_trigger_missing_priority self)
      | Some priority \<Rightarrow>
          (case text_of priority of
             None \<Rightarrow> Inl TypeError
           | Some priority_text \<Rightarrow>
               (case py_int priority_text of
                  Some priority_val \<Rightarrow>
                    Inr (if \<not> (0 \<le> priority_val \<and> priority_val < 6)
                         then add_warning (msg_invalid_priority priority_val) self else self)
                | None \<Rightarrow>
                    Inr (if priority_text \<notin> set valid_priorities
                         then add_warning (msg_unknown_priority priority_text) self
                         else self))))"

fun triggers_loop :: "string option set \<Rightarrow> validator \<Rightarrow> element list \<Rightarrow> exn + validator" where
  "triggers_loop seen_expressions self [] = Inr self"
| "triggers_loop seen_expressions self (trigger # rest) =
     (let self1 = (if find_child ''name'' trigger = None
                   then add_error msg_trigger_missing_name self else self)
      in and_then (trigger_expression_check seen_expressions self1 trigger)
           (\<lambda>(seen_expressions', self2).
              and_then (trigger_priority_check self2 trigger)
                (\<lambda>self3. triggers_loop seen_expressions' self3 rest)))"

definition validate_triggers :: "validator \<Rightarrow> element list \<Rightarrow> exn + validator" where
  "validate_triggers self triggers = triggers_loop {} self triggers"

subsection \<open>Macros\<close>

text \<open>The pattern \<open>^\{\$[A-Z0-9_]+\}$\<close>, given to \<open>re.match\<close>.\<close>

definition macro_pattern :: "item list" where
  "macro_pattern =
     [One (Lit (CHR ''{'')), One (Lit (CHR ''$'')),
      OneOrMore (Ranges [(CHR ''A'', CHR ''Z''), (CHR ''0'', CHR ''9''), (CHR ''_'', CHR ''_'')]),
      One (Lit (CHR ''}'')), Dollar]"

text \<open>\<open>re.match(pattern, name_text)\<close> raises \<open>TypeError\<close> when the text is \<open>None\<close>.\<close>

definition macro_name_check :: "string set \<Rightarrow> validator \<Rightarrow> element
    \<Rightarrow> exn + (string set \<times> validator)" where
  "macro_name_check seen_macros self macro =
     (case find_child ''macro'' macro of
        None \<Rightarrow> Inr (seen_macros, add_error msg_macro_missing_name self)
      | Some macro_name \<Rightarrow>
          (case text_of macro_name of
             None \<Rightarrow> Inl TypeError
           | Some name_text \<Rightarrow>
               (let self1 = (if \<not> re_match False macro_pattern name_text
                             then add_warning (msg_macro_convention name_text) self else self);
                    self2 = (if name_text \<in> seen_macros
                             then add_error (msg_duplicate_macro name_text) self1 else self1)
                in Inr (insert name_text seen_macros, self2))))"

definition macro_value_check :: "validator \<Rightarrow> element \<Rightarrow> validator" where
  "macro_value_check self macro =
     (if find_child ''value'' macro = None then
        add_warning
          (msg_macro_no_value
             (case find_child ''macro'' macro of
                None \<Rightarrow> ''unknown''
              | Some macro_name \<Rightarrow> fmt (text_of macro_name)))
          self
      else self)"

fun macros_loop :: "string set \<Rightarrow> validator \<Rightarrow> element list \<Rightarrow> exn + validator" where
  "macros_loop seen_macros self [] = Inr self"
| "macros_loop seen_macros self (macro # rest) =
     and_then (macro_name_check seen_macros self macro)
       (\<lambda>(seen_macros', self1). macros_loop seen_macros' (macro_value_check self1 macro) rest)"

definition validate_macros :: "validator \<Rightarrow> element list \<Rightarrow> exn + validator" where
  "validate_macros self macros = macros_loop {} self macros"

subsection \<open>UUIDs\<close>

definition hex :: cclass where
  "hex = Ranges [(CHR ''0'', CHR ''9''), (CHR ''a'', CHR ''f'')]"

text \<open>
  The patterns \<open>^[0-9a-f]{8}-[0-9a-f]{4}-[0-9a-f]{4}-[0-9a-f]{4}-[0-9a-f]{12}$\<close> and
  \<open>^[0-9a-f]{32}$\<close>, both compiled with \<open>re.IGNORECASE\<close>.
\<close>

definition uuid_pattern_dashed :: "item list" where
  "uuid_pattern_dashed =
     [Exactly 8 hex, One (Lit (CHR ''-'')), Exactly 4 hex, One (Lit (CHR ''-'')),
      Exactly 4 hex, One (Lit (CHR ''-'')), Exactly 4 hex, One (Lit (CHR ''-'')),
      Exactly 12 hex, Dollar]"

definition uuid_pattern_nodash :: "item list" where
  "uuid_pattern_nodash = [Exactly 32 hex, Dollar]"

definition is_valid_uuid :: "string \<Rightarrow> bool" where
  "is_valid_uuid uuid_str =
     (re_match True uuid_pattern_dashed uuid_str \<or> re_match True uuid_pattern_nodash uuid_str)"

subsection \<open>One template\<close>

definition template_name_check :: "validator \<Rightarrow> element \<Rightarrow> exn + validator" where
  "template_name_check self template =
     (if find_child ''name'' template = None
      then Inr (add_error msg_missing_template_name self) else Inr self)"

text \<open>
  Before the format check the source prints \<open>uuid_text[:8]\<close>, which raises
  \<open>TypeError\<close> when the text is \<open>None\<close>.
\<close>

definition template_uuid_check :: "validator \<Rightarrow> element \<Rightarrow> exn + validator" where
  "template_uuid_check self template =
     (case find_child ''uuid'' template of
        None \<Rightarrow> Inr (add_warning msg_missing_uuid self)
      | Some uuid \<Rightarrow>
          (case text_of uuid of
             None \<Rightarrow> Inl TypeError
           | Some uuid_text \<Rightarrow>
               if \<not> is_valid_uuid uuid_text
               then Inr (add_error (msg_invalid_uuid uuid_text) self) else Inr self))"

definition template_groups_check :: "validator \<Rightarrow> element \<Rightarrow> exn + validator" where
  "template_groups_check self template =
     (case find_child ''groups'' template of
        None \<Rightarrow> Inr (add_warning msg_no_groups self)
      | Some groups \<Rightarrow>
          if length (findall ''group'' groups) = 0 then Inr (add_warning msg_no_groups self)
          else validate_groups self groups)"

text \<open>
  The four collections: each is checked when its parent element is there, on the list
  of its children of the right tag.
\<close>

definition template_collection_check ::
    "string \<Rightarrow> string \<Rightarrow> (validator \<Rightarrow> element list \<Rightarrow> exn + validator)
      \<Rightarrow> validator \<Rightarrow> element \<Rightarrow> exn + validator" where
  "template_collection_check parent child_tag check_list self template =
     (case find_child parent template of
        None \<Rightarrow> Inr self
      | Some p \<Rightarrow> check_list self (findall child_tag p))"

definition validate_template :: "validator \<Rightarrow> element \<Rightarrow> exn + validator" where
  "validate_template self template =
     and_then (template_name_check self template) (\<lambda>self1.
     and_then (template_uuid_check self1 template) (\<lambda>self2.
     and_then (template_groups_check self2 template) (\<lambda>self3.
     and_then (template_collection_check ''items'' ''item'' validate_items self3 template)
       (\<lambda>self4.
     and_then (template_collection_check ''discovery_rules'' ''discovery_rule''
                 validate_discovery_rules self4 template) (\<lambda>self5.
     and_then (template_collection_check ''triggers'' ''trigger'' validate_triggers
                 self5 template) (\<lambda>self6.
     template_collection_check ''macros'' ''macro'' validate_macros self6 template))))))"

subsection \<open>The templates section, \<open>validate\<close> and the exit code\<close>

definition msg_found_templates :: "nat \<Rightarrow> string" where
  "msg_found_templates n = check @ '' Found '' @ str_int (int n) @ '' template(s)''"

definition validate_templates :: "validator \<Rightarrow> exn + validator" where
  "validate_templates self =
     (case root self of
        None \<Rightarrow> Inl AttributeError
      | Some r \<Rightarrow>
          (case find_child ''templates'' r of
             None \<Rightarrow> Inr (add_error msg_missing_templates self)
           | Some templates \<Rightarrow>
               (let template_list = findall ''template'' templates;
                    template_count = length template_list
                in if template_count = 0 then Inr (add_warning msg_no_templates self)
                   else for_each validate_template
                          (add_info (msg_found_templates template_count) self)
                          template_list)))"

text \<open>
  \<open>validate\<close> on a new validator: the verdict and the validator with its findings, or
  the exception that ended it.
\<close>

definition validate :: "parse_outcome \<Rightarrow> exn + (bool \<times> validator)" where
  "validate src =
     (let (parsed, self1) = parse_xml src new_validator in
      if \<not> parsed then Inr (False, self1)
      else
        and_then (validate_root_structure self1) (\<lambda>self2.
        and_then (validate_version self2) (\<lambda>self3.
        and_then (validate_templates self3) (\<lambda>self4.
        Inr (errors self4 = [], self4)))))"

text \<open>
  The end of \<open>main\<close>: every file is validated by a validator of its own, and the
  argument of \<open>sys.exit\<close> is 0 when all passed, else 1. An exception that escapes
  \<open>validate\<close> escapes \<open>main\<close> too.
\<close>

fun files_loop :: "bool \<Rightarrow> parse_outcome list \<Rightarrow> exn + bool" where
  "files_loop all_passed [] = Inr all_passed"
| "files_loop all_passed (f # fs) =
     and_then (validate f)
       (\<lambda>(passed, v). files_loop (if \<not> passed then False else all_passed) fs)"

definition exit_code :: "parse_outcome list \<Rightarrow> exn + nat" where
  "exit_code files = and_then (files_loop True files) (\<lambda>all_passed.
     Inr (if all_passed then 0 else 1))"

subsection \<open>Example documents\<close>

text \<open>A leaf element with a text.\<close>

definition leaf :: "string \<Rightarrow> string \<Rightarrow> element" where
  "leaf t x = Element t (Some x) []"

text \<open>\<open><zabbix_export><version>7.0</version><templates/></zabbix_export>\<close>\<close>

definition doc_empty_templates :: element where
  "doc_empty_templates =
     Element ''zabbix_export'' None [leaf ''version'' ''7.0'', Element ''templates'' None []]"

text \<open>\<open><zabbix_export><version/><templates/></zabbix_export>\<close>\<close>

definition doc_version_without_text :: element where
  "doc_version_without_text =
     Element ''zabbix_export'' None [Element ''version'' None [], Element ''templates'' None []]"

text \<open>\<open><foo><version/></foo>\<close>\<close>

definition doc_wrong_root_version_without_text :: element where
  "doc_wrong_root_version_without_text = Element ''foo'' None [Element ''version'' None []]"

text \<open>
  \<open><trigger><name>n</name><expression/><priority>3</priority></trigger>\<close>
\<close>

definition trigger_without_expression_text :: "string \<Rightarrow> element" where
  "trigger_without_expression_text n =
     Element ''trigger'' None
       [leaf ''name'' n, Element ''expression'' None [], leaf ''priority'' ''3'']"

text \<open>
  \<open><item><name>Load</name><key>cpu.load</key><value_type>FLOAT</value_type></item>\<close>
\<close>

definition item_cpu_load :: element where
  "item_cpu_load =
     Element ''item'' None
       [leaf ''name'' ''Load'', leaf ''key'' ''cpu.load'', leaf ''value_type'' ''FLOAT'']"

text \<open>
  \<open><item><name>Load</name><key>cpu.load</key><value_type/></item>\<close>
\<close>

definition item_without_value_type_text :: element where
  "item_without_value_type_text =
     Element ''item'' None
       [leaf ''name'' ''Load'', leaf ''key'' ''cpu.load'', Element ''value_type'' None []]"

text \<open>
  A template without a uuid that has one group, one item, one discovery rule, one
  trigger and one macro.
\<close>

definition template_sample :: element where
  "template_sample =
     Element ''template'' None
       [leaf ''name'' ''Linux'',
        Element ''groups'' None [Element ''group'' None [leaf ''name'' ''Templates'']],
        Element ''items'' None [item_cpu_load],
        Element ''discovery_rules'' None
          [Element ''discovery_rule'' None [leaf ''name'' ''Disks'', leaf ''key'' ''disk.discovery'']],
        Element ''triggers'' None
          [Element ''trigger'' None
             [leaf ''name'' ''High load'', leaf ''expression'' ''last(/Linux/cpu.load)>5'',
              leaf ''priority'' ''3'']],
        Element ''macros'' None
          [Element ''macro'' None [leaf ''macro'' ''{$LIMIT}'', leaf ''value'' ''5'']]]"

text \<open>\<open><zabbix_export/>\<close> and \<open><zabbix_export><version>7.0</version></zabbix_export>\<close>\<close>

definition doc_only_root :: element where
  "doc_only_root = Element ''zabbix_export'' None []"

definition doc_without_templates :: element where
  "doc_without_templates = Element ''zabbix_export'' None [leaf ''version'' ''7.0'']"

text \<open>
  A template whose uuid element holds the given text, and a macro whose name element
  holds the given text (with a value).
\<close>

definition template_with_uuid :: "string \<Rightarrow> element" where
  "template_with_uuid u = Element ''template'' None [leaf ''name'' ''T'', leaf ''uuid'' u]"

definition macro_named :: "string \<Rightarrow> element" where
  "macro_named n = Element ''macro'' None [leaf ''macro'' n, leaf ''value'' ''1'']"

text \<open>\<open><macro><macro/><value>1</value></macro>\<close>\<close>

definition macro_without_name_text :: element where
  "macro_without_name_text =
     Element ''macro'' None [Element ''macro'' None [], leaf ''value'' ''1'']"

subsection \<open>Notions used in the statements\<close>

text \<open>
  The key text of an item: the text of its first \<open>key\<close> child, when it has both. The
  occurrences of a key text \<open>k\<close> in a collection are the items whose key text is \<open>k\<close>.
\<close>

definition item_key_text :: "element \<Rightarrow> string option" where
  "item_key_text item =
     (case find_child ''key'' item of None \<Rightarrow> None | Some key \<Rightarrow> text_of key)"

definition key_occurrences :: "string \<Rightarrow> element list \<Rightarrow> nat" where
  "key_occurrences k items = length (filter (\<lambda>item. item_key_text item = Some k) items)"

text \<open>
  An element has a text in its child \<open>t\<close> when it has no such child or the first one
  carries a text.
\<close>

definition has_text :: "string \<Rightarrow> element \<Rightarrow> bool" where
  "has_text t e = (case find_child t e of None \<Rightarrow> True | Some c \<Rightarrow> text_of c \<noteq> None)"

text \<open>
  Appending the findings of one validator to those of another, and the same on the
  result of a check.
\<close>

definition append_findings :: "validator \<Rightarrow> validator \<Rightarrow> validator" where
  "append_findings self d =
     self\<lparr>errors := errors self @ errors d, warnings := warnings self @ warnings d,
          info := info self @ info d\<rparr>"

definition carry :: "validator \<Rightarrow> exn + validator \<Rightarrow> exn + validator" where
  "carry self res = (case res of Inl e \<Rightarrow> Inl e | Inr d \<Rightarrow> Inr (append_findings self d))"

text \<open>
  Duplicate findings are the four messages that report a repeated key, macro name or
  expression; each is recognised by its fixed beginning. \<open>duplicate_findings\<close> counts
  them in a list of messages.
\<close>

fun starts_with :: "string \<Rightarrow> string \<Rightarrow> bool" where
  "starts_with [] m = True"
| "starts_with (p # ps) [] = False"
| "starts_with (p # ps) (c # cs) = (p = c \<and> starts_with ps cs)"

definition is_duplicate_finding :: "string \<Rightarrow> bool" where
  "is_duplicate_finding m =
     (starts_with (''      '' @ cross @ '' Duplicate item key: '') m
      \<or> starts_with (''      '' @ cross @ '' Duplicate discovery rule key: '') m
      \<or> starts_with (''      '' @ cross @ '' Duplicate macro: '') m
      \<or> starts_with (''      '' @ warn @ '' Duplicate trigger expression: '') m)"

definition duplicate_findings :: "string list \<Rightarrow> nat" where
  "duplicate_findings ms = length (filter is_duplicate_finding ms)"

text \<open>
  The entries of one collection of a template (the children \<open>child_tag\<close> of its element
  \<open>parent\<close>), and the texts that the entries hold in their first child \<open>field\<close>, in
  document order; an entry without that child contributes nothing. These are the keys of
  the items and of the discovery rules, the expressions of the triggers and the names of
  the macros of a template.
\<close>

definition collection :: "string \<Rightarrow> string \<Rightarrow> element \<Rightarrow> element list" where
  "collection parent child_tag template =
     (case find_child parent template of None \<Rightarrow> [] | Some p \<Rightarrow> findall child_tag p)"

definition field_texts :: "string \<Rightarrow> element list \<Rightarrow> string option list" where
  "field_texts field xs =
     concat (map (\<lambda>x. case find_child field x of None \<Rightarrow> [] | Some f \<Rightarrow> [text_of f]) xs)"

definition item_keys :: "element \<Rightarrow> string option list" where
  "item_keys t = field_texts ''key'' (collection ''items'' ''item'' t)"

definition rule_keys :: "element \<Rightarrow> string option list" where
  "rule_keys t = field_texts ''key'' (collection ''discovery_rules'' ''discovery_rule'' t)"

definition trigger_expressions :: "element \<Rightarrow> string option list" where
  "trigger_expressions t = field_texts ''expression'' (collection ''triggers'' ''trigger'' t)"

definition macro_names :: "element \<Rightarrow> string option list" where
  "macro_names t = field_texts ''macro'' (collection ''macros'' ''macro'' t)"

text \<open>
  The repeats in a list of keys: the entries that are in \<open>seen\<close> or equal an earlier
  entry of the list. A template has distinct keys when none of its four collections
  holds a key twice.
\<close>

fun repeats :: "'a set \<Rightarrow> 'a list \<Rightarrow> nat" where
  "repeats seen [] = 0"
| "repeats seen (k # ks) = (if k \<in> seen then 1 else 0) + repeats (insert k seen) ks"

definition keys_distinct :: "element \<Rightarrow> bool" where
  "keys_distinct t = (distinct (item_keys t) \<and> distinct (rule_keys t)
     \<and> distinct (trigger_expressions t) \<and> distinct (macro_names t))"

text \<open>
  The two UUID shapes and the macro naming convention, written from the words of the
  specification rather than from the patterns of the source: a dashed UUID is 36
  characters, hexadecimal digits of either case in groups of 8, 4, 4, 4 and 12 with a
  dash between the groups; an undashed one is 32 hexadecimal digits; a macro name is
  \<open>{$\<close>, one or more characters out of \<open>A-Z\<close>, \<open>0-9\<close> and \<open>_\<close>, and \<open>}\<close>.
\<close>

definition is_hex :: "char \<Rightarrow> bool" where
  "is_hex c = (in_range c (CHR ''0'', CHR ''9'') \<or> in_range c (CHR ''a'', CHR ''f'')
     \<or> in_range c (CHR ''A'', CHR ''F''))"

definition spec_uuid_dashed :: "string \<Rightarrow> bool" where
  "spec_uuid_dashed s =
     (length s = 36
      \<and> list_all is_hex (take 8 s) \<and> s ! 8 = CHR ''-''
      \<and> list_all is_hex (take 4 (drop 9 s)) \<and> s ! 13 = CHR ''-''
      \<and> list_all is_hex (take 4 (drop 14 s)) \<and> s ! 18 = CHR ''-''
      \<and> list_all is_hex (take 4 (drop 19 s)) \<and> s ! 23 = CHR ''-''
      \<and> list_all is_hex (drop 24 s))"

definition spec_uuid_nodash :: "string \<Rightarrow> bool" where
  "spec_uuid_nodash s = (length s = 32 \<and> list_all is_hex s)"

definition spec_uuid :: "string \<Rightarrow> bool" where
  "spec_uuid s = (spec_uuid_dashed s \<or> spec_uuid_nodash s)"

definition macro_char :: "char \<Rightarrow> bool" where
  "macro_char c = (in_range c (CHR ''A'', CHR ''Z'') \<or> in_range c (CHR ''0'', CHR ''9'')
     \<or> c = CHR ''_'')"

definition spec_macro_name :: "string \<Rightarrow> bool" where
  "spec_macro_name s =
     (4 \<le> length s \<and> take 2 s = ''{$'' \<and> last s = CHR ''}''
      \<and> list_all macro_char (butlast (drop 2 s)))"

section \<open>Properties\<close>

subsection \<open>The findings lists\<close>

lemma errors_add [simp]:
  "errors (add_error m self) = errors self @ [m]"
  "errors (add_warning m self) = errors self"
  "errors (add_info m self) = errors self"
  by (simp_all add: add_error_def add_warning_def add_info_def)

lemma warnings_add [simp]:
  "warnings (add_error m self) = warnings self"
  "warnings (add_warning m self) = warnings self @ [m]"
  "warnings (add_info m self) = warnings self"
  by (simp_all add: add_error_def add_warning_def add_info_def)

lemma info_add [simp]:
  "info (add_error m self) = info self"
  "info (add_warning m self) = info self"
  "info (add_info m self) = info self @ [m]"
  by (simp_all add: add_error_def add_warning_def add_info_def)

lemma root_add [simp]:
  "root (add_error m self) = root self"
  "root (add_warning m self) = root self"
  "root (add_info m self) = root self"
  by (simp_all add: add_error_def add_warning_def add_info_def)

subsection \<open>The verdict\<close>

text \<open>
  Claim C1. Whenever \<open>validate\<close> returns a verdict, the verdict is PASS (\<open>True\<close>) exactly
  when the error list of the validator is empty; warnings and info play no part. This
  covers the early return after a parse failure, where the verdict is FAIL and the
  error list holds the parse error.
\<close>

theorem verdict_iff_no_errors:
  assumes "validate src = Inr (passed, self')"
  shows "passed \<longleftrightarrow> errors self' = []"
proof (cases src)
  case (Parsed r)
  with assms show ?thesis
    by (auto simp: validate_def parse_xml_def and_then_def split: sum.splits)
next
  case (ParseError e)
  with assms show ?thesis
    by (auto simp: validate_def parse_xml_def)
next
  case (OtherError e)
  with assms show ?thesis
    by (auto simp: validate_def parse_xml_def)
qed

text \<open>
  A document that passes with a warning: three info entries, one warning, no error.
\<close>

theorem verdict_iff_no_errors_witness:
  "validate (Parsed doc_empty_templates) =
     Inr (True, \<lparr>errors = [], warnings = [msg_no_templates],
                 info = [check @ '' XML parsing successful'',
                         check @ '' Root element is '' @ sq @ ''zabbix_export'' @ sq,
                         check @ '' Zabbix version: 7.0''],
                 root = Some doc_empty_templates\<rparr>)
   \<and> errors \<lparr>errors = [], warnings = [msg_no_templates],
               info = [check @ '' XML parsing successful'',
                       check @ '' Root element is '' @ sq @ ''zabbix_export'' @ sq,
                       check @ '' Zabbix version: 7.0''],
               root = Some doc_empty_templates\<rparr> = []"
proof -
  have run: "validate (Parsed doc_empty_templates) =
     Inr (True, \<lparr>errors = [], warnings = [msg_no_templates],
                 info = [check @ '' XML parsing successful'',
                         check @ '' Root element is '' @ sq @ ''zabbix_export'' @ sq,
                         check @ '' Zabbix version: 7.0''],
                 root = Some doc_empty_templates\<rparr>)"
    by code_simp
  from verdict_iff_no_errors [OF run] run show ?thesis
    by blast
qed

subsection \<open>Duplicate item keys\<close>

lemma duplicate_item_key_inj [simp]:
  "msg_duplicate_item_key k = msg_duplicate_item_key k' \<longleftrightarrow> k = k'"
  by (simp add: msg_duplicate_item_key_def)

lemma duplicate_item_key_distinct [simp]:
  "msg_item_missing_name \<noteq> msg_duplicate_item_key k"
  "msg_item_missing_key \<noteq> msg_duplicate_item_key k"
  "msg_item_missing_value_type \<noteq> msg_duplicate_item_key k"
  by (simp_all add: msg_duplicate_item_key_def msg_item_missing_name_def
      msg_item_missing_key_def msg_item_missing_value_type_def cross_def)

lemma item_name_check_count:
  "count_list (errors (item_name_check self item)) (msg_duplicate_item_key k)
     = count_list (errors self) (msg_duplicate_item_key k)"
  by (simp add: item_name_check_def)

lemma item_value_type_check_count:
  assumes "item_value_type_check self item = Inr self'"
  shows "count_list (errors self') (msg_duplicate_item_key k)
     = count_list (errors self) (msg_duplicate_item_key k)"
  using assms
  by (auto simp: item_value_type_check_def split: option.splits if_splits)

lemma item_key_check_seen:
  assumes "item_key_check seen self item = Inr (seen', self')"
  shows "seen' = (case item_key_text item of None \<Rightarrow> seen | Some t \<Rightarrow> insert t seen)"
  using assms
  by (auto simp: item_key_check_def item_key_text_def Let_def split: option.splits if_splits)

lemma item_key_check_count:
  assumes "item_key_check seen self item = Inr (seen', self')"
  shows "count_list (errors self') (msg_duplicate_item_key k)
     = count_list (errors self) (msg_duplicate_item_key k)
       + (if item_key_text item = Some k \<and> k \<in> seen then 1 else 0)"
  using assms
  by (auto simp: item_key_check_def item_key_text_def Let_def split: option.splits if_splits)

text \<open>
  The loop invariant: from a set \<open>seen\<close> of keys, every occurrence of \<open>k\<close> in the items
  still to come is reported, but for the first one when \<open>k\<close> has not been seen yet.
\<close>

lemma items_loop_count:
  assumes "items_loop seen self items = Inr self'"
  shows "count_list (errors self') (msg_duplicate_item_key k)
     = count_list (errors self) (msg_duplicate_item_key k)
       + (if k \<in> seen then key_occurrences k items else key_occurrences k items - 1)"
  using assms
proof (induction items arbitrary: seen self)
  case Nil
  then show ?case by (simp add: key_occurrences_def)
next
  case (Cons item rest)
  from Cons.prems obtain seen1 self1 self2 where
    key: "item_key_check seen (item_name_check self item) item = Inr (seen1, self1)" and
    vt: "item_value_type_check self1 item = Inr self2" and
    rest: "items_loop seen1 self2 rest = Inr self'"
    by (auto simp: and_then_def split: sum.splits)
  note k0 = item_key_check_seen [OF key]
  note k1 = item_key_check_count [OF key, of k]
  note v1 = item_value_type_check_count [OF vt, of k]
  note n1 = item_name_check_count [of self item k]
  note ih = Cons.IH [OF rest]
  consider (same) "item_key_text item = Some k" | (other) "item_key_text item \<noteq> Some k"
    by blast
  then show ?case
  proof cases
    case same
    then have "k \<in> seen1" using k0 by simp
    with ih k1 v1 n1 same show ?thesis
      by (simp add: key_occurrences_def)
  next
    case other
    then have "k \<in> seen1 \<longleftrightarrow> k \<in> seen" using k0 by (auto split: option.splits)
    with ih k1 v1 n1 other show ?thesis
      by (simp add: key_occurrences_def)
  qed
qed

text \<open>
  The item check returns exactly when every key and value_type element it reads carries
  a text.
\<close>

lemma item_key_check_returns:
  "(\<exists>res. item_key_check seen self item = Inr res) \<longleftrightarrow> has_text ''key'' item"
  by (auto simp: item_key_check_def has_text_def Let_def split: option.splits)

lemma item_value_type_check_returns:
  "(\<exists>res. item_value_type_check self item = Inr res) \<longleftrightarrow> has_text ''value_type'' item"
  by (auto simp: item_value_type_check_def has_text_def split: option.splits)

lemma items_loop_returns:
  "(\<exists>self'. items_loop seen self items = Inr self') \<longleftrightarrow>
     list_all (\<lambda>item. has_text ''key'' item \<and> has_text ''value_type'' item) items"
proof (induction items arbitrary: seen self)
  case Nil
  show ?case by simp
next
  case (Cons item rest)
  show ?case
  proof
    assume "\<exists>self'. items_loop seen self (item # rest) = Inr self'"
    then obtain seen1 self1 self2 self' where
      key: "item_key_check seen (item_name_check self item) item = Inr (seen1, self1)" and
      vt: "item_value_type_check self1 item = Inr self2" and
      rest: "items_loop seen1 self2 rest = Inr self'"
      by (auto simp: and_then_def split: sum.splits)
    from key item_key_check_returns have "has_text ''key'' item" by blast
    moreover from vt item_value_type_check_returns have "has_text ''value_type'' item" by blast
    moreover from rest Cons.IH
    have "list_all (\<lambda>item. has_text ''key'' item \<and> has_text ''value_type'' item) rest"
      by blast
    ultimately
    show "list_all (\<lambda>item. has_text ''key'' item \<and> has_text ''value_type'' item) (item # rest)"
      by simp
  next
    assume a: "list_all (\<lambda>item. has_text ''key'' item \<and> has_text ''value_type'' item) (item # rest)"
    then obtain res where
      key: "item_key_check seen (item_name_check self item) item = Inr res"
      using item_key_check_returns [of seen "item_name_check self item" item] by auto
    from a obtain self2 where vt: "item_value_type_check (snd res) item = Inr self2"
      using item_value_type_check_returns [of "snd res" item] by auto
    from a Cons.IH [of "fst res" self2] obtain self' where
      "items_loop (fst res) self2 rest = Inr self'" by auto
    with key vt show "\<exists>self'. items_loop seen self (item # rest) = Inr self'"
      by (cases res) (simp add: and_then_def)
  qed
qed

lemma validate_items_returns:
  "(\<exists>self'. validate_items self items = Inr self') \<longleftrightarrow>
     list_all (\<lambda>item. has_text ''key'' item \<and> has_text ''value_type'' item) items"
  unfolding validate_items_def by (rule items_loop_returns)

text \<open>
  Item by item: the last item of a collection adds one Duplicate-item-key error for \<open>k\<close>
  exactly when its key text is \<open>k\<close> and an earlier item has that key text.
\<close>

lemma last_item_flagged:
  assumes "validate_items self (earlier @ [item]) = Inr self'"
  shows "\<exists>self1. validate_items self earlier = Inr self1
     \<and> count_list (errors self') (msg_duplicate_item_key k)
         = count_list (errors self1) (msg_duplicate_item_key k)
           + (if item_key_text item = Some k \<and> 0 < key_occurrences k earlier then 1 else 0)"
proof -
  from assms validate_items_returns [of self "earlier @ [item]"]
  have "list_all (\<lambda>item. has_text ''key'' item \<and> has_text ''value_type'' item) earlier"
    by auto
  with validate_items_returns [of self earlier] obtain self1 where
    e: "validate_items self earlier = Inr self1" by blast
  from items_loop_count [of "{}" self "earlier @ [item]" self' k] assms
  have a: "count_list (errors self') (msg_duplicate_item_key k)
     = count_list (errors self) (msg_duplicate_item_key k)
       + (key_occurrences k (earlier @ [item]) - 1)"
    by (simp add: validate_items_def)
  from items_loop_count [of "{}" self earlier self1 k] e
  have b: "count_list (errors self1) (msg_duplicate_item_key k)
     = count_list (errors self) (msg_duplicate_item_key k) + (key_occurrences k earlier - 1)"
    by (simp add: validate_items_def)
  have "key_occurrences k (earlier @ [item])
     = key_occurrences k earlier + (if item_key_text item = Some k then 1 else 0)"
    by (simp add: key_occurrences_def)
  with a b e show ?thesis
    by auto
qed

text \<open>
  When \<open>validate_items\<close> returns, the number of errors \<open>Duplicate item key: 'k'\<close> it has
  added is the number of occurrences of \<open>k\<close> less one (none when \<open>k\<close> does not occur).
\<close>

lemma items_duplicates_when_returned:
  assumes "validate_items self items = Inr self'"
  shows "count_list (errors self') (msg_duplicate_item_key k)
     = count_list (errors self) (msg_duplicate_item_key k) + (key_occurrences k items - 1)"
  using items_loop_count [of "{}" self items self' k] assms
  by (simp add: validate_items_def)

text \<open>Three items with the key \<open>cpu.load\<close>: two errors, for the second and the third.\<close>

lemma three_items_example:
  "validate_items new_validator [item_cpu_load, item_cpu_load, item_cpu_load] =
     Inr \<lparr>errors = [msg_duplicate_item_key ''cpu.load'', msg_duplicate_item_key ''cpu.load''],
          warnings = [], info = [], root = None\<rparr>"
  by code_simp

text \<open>
  Claim C3 fails on the code. Two items with the key \<open>cpu.load\<close>, the first with a
  value_type element that has no text: the key of the first item is seen, then
  \<open>int(vtype_text)\<close> raises \<open>TypeError\<close> on \<open>None\<close>, which \<open>except ValueError\<close> does not
  catch. The loop ends before the second item, so its key, though it equals the key of
  an earlier item, yields no Duplicate-item-key error: two occurrences, not one error.
\<close>

theorem repeated_key_after_value_type_without_text:
  "validate_items self [item_without_value_type_text, item_cpu_load] = Inl TypeError
   \<and> key_occurrences ''cpu.load'' [item_without_value_type_text, item_cpu_load] = 2"
  by (simp add: validate_items_def item_without_value_type_text_def item_cpu_load_def
      leaf_def find_child_def and_then_def item_name_check_def item_key_check_def
      item_value_type_check_def key_occurrences_def item_key_text_def)

subsection \<open>Findings of a template do not depend on earlier templates\<close>

text \<open>
  Every check below \<open>validate_template\<close> only appends to the three lists and reads
  nothing of them: run on a validator that already holds findings, it appends what it
  would record on an empty one. The sets of seen keys, macro names and expressions are
  variables of the four list checks, started empty by each call.
\<close>

lemma append_findings_new [simp]: "append_findings self new_validator = self"
  by (simp add: append_findings_def new_validator_def)

lemma append_findings_assoc:
  "append_findings (append_findings a b) c = append_findings a (append_findings b c)"
  by (simp add: append_findings_def)

lemma add_append_findings [simp]:
  "add_error m (append_findings a b) = append_findings a (add_error m b)"
  "add_warning m (append_findings a b) = append_findings a (add_warning m b)"
  "add_info m (append_findings a b) = append_findings a (add_info m b)"
  by (simp_all add: append_findings_def add_error_def add_warning_def add_info_def)

lemma carry_simps [simp]:
  "carry a (Inl e) = Inl e"
  "carry a (Inr d) = Inr (append_findings a d)"
  by (simp_all add: carry_def)

lemma carry_if: "carry a (if c then x else y) = (if c then carry a x else carry a y)"
  by simp

lemma carry_and_then:
  "carry a (and_then m g) = and_then m (\<lambda>x. carry a (g x))"
  by (cases m) (simp_all add: and_then_def)

lemma and_then_carry:
  "and_then (carry a m) g = and_then m (\<lambda>d. g (append_findings a d))"
  by (cases m) (simp_all add: and_then_def)

lemma for_each_carry:
  assumes "\<And>a b x. body (append_findings a b) x = carry a (body b x)"
  shows "for_each body (append_findings a b) xs = carry a (for_each body b xs)"
proof (induction xs arbitrary: b)
  case Nil
  show ?case by simp
next
  case (Cons x xs)
  show ?case
    by (simp add: assms and_then_carry carry_and_then Cons.IH)
qed

lemma validate_group_carry:
  "validate_group (append_findings a b) g = carry a (validate_group b g)"
  by (simp add: validate_group_def)

lemma validate_groups_carry:
  "validate_groups (append_findings a b) g = carry a (validate_groups b g)"
  unfolding validate_groups_def by (rule for_each_carry) (rule validate_group_carry)

lemma item_name_check_carry:
  "item_name_check (append_findings a b) i = append_findings a (item_name_check b i)"
  by (simp add: item_name_check_def)

lemma item_key_check_carry:
  "item_key_check seen (append_findings a b) i =
     (case item_key_check seen b i of Inl e \<Rightarrow> Inl e
      | Inr (seen', d) \<Rightarrow> Inr (seen', append_findings a d))"
  by (simp add: item_key_check_def Let_def split: option.splits)

lemma item_value_type_check_carry:
  "item_value_type_check (append_findings a b) i = carry a (item_value_type_check b i)"
  by (simp add: item_value_type_check_def split: option.splits)

lemma items_loop_carry:
  "items_loop seen (append_findings a b) items = carry a (items_loop seen b items)"
proof (induction items arbitrary: seen b)
  case Nil
  show ?case by simp
next
  case (Cons i rest)
  show ?case
    by (simp add: item_name_check_carry item_key_check_carry item_value_type_check_carry
        Cons.IH and_then_def split: sum.splits prod.splits)
qed

lemma rule_key_check_carry:
  "rule_key_check seen (append_findings a b) r =
     (case rule_key_check seen b r of (seen', d) \<Rightarrow> (seen', append_findings a d))"
  by (simp add: rule_key_check_def Let_def split: option.splits)

lemma rule_prototypes_check_carry:
  "rule_prototypes_check (append_findings a b) r = append_findings a (rule_prototypes_check b r)"
  by (simp add: rule_prototypes_check_def split: option.splits)

lemma rules_loop_carry:
  "rules_loop seen (append_findings a b) rules = carry a (rules_loop seen b rules)"
proof (induction rules arbitrary: seen b)
  case Nil
  show ?case by simp
next
  case (Cons r rest)
  show ?case
    by (simp add: rule_key_check_carry rule_prototypes_check_carry Cons.IH Let_def
        split: prod.splits)
qed

lemma validate_trigger_expression_carry:
  "validate_trigger_expression (append_findings a b) x
     = append_findings a (validate_trigger_expression b x)"
  by (simp add: validate_trigger_expression_def Let_def split: option.splits)

lemma trigger_expression_check_carry:
  "trigger_expression_check seen (append_findings a b) t =
     (case trigger_expression_check seen b t of Inl e \<Rightarrow> Inl e
      | Inr (seen', d) \<Rightarrow> Inr (seen', append_findings a d))"
  by (simp add: trigger_expression_check_def Let_def and_then_def
      validate_trigger_expression_carry split: option.splits)

lemma trigger_priority_check_carry:
  "trigger_priority_check (append_findings a b) t = carry a (trigger_priority_check b t)"
  by (simp add: trigger_priority_check_def split: option.splits)

lemma triggers_loop_carry:
  "triggers_loop seen (append_findings a b) triggers = carry a (triggers_loop seen b triggers)"
proof (induction triggers arbitrary: seen b)
  case Nil
  show ?case by simp
next
  case (Cons t rest)
  show ?case
    by (simp add: trigger_expression_check_carry trigger_priority_check_carry Cons.IH
        Let_def and_then_def split: sum.splits prod.splits)
qed

lemma macro_name_check_carry:
  "macro_name_check seen (append_findings a b) m =
     (case macro_name_check seen b m of Inl e \<Rightarrow> Inl e
      | Inr (seen', d) \<Rightarrow> Inr (seen', append_findings a d))"
  by (simp add: macro_name_check_def Let_def split: option.splits)

lemma macro_value_check_carry:
  "macro_value_check (append_findings a b) m = append_findings a (macro_value_check b m)"
  by (simp add: macro_value_check_def)

lemma macros_loop_carry:
  "macros_loop seen (append_findings a b) macros = carry a (macros_loop seen b macros)"
proof (induction macros arbitrary: seen b)
  case Nil
  show ?case by simp
next
  case (Cons m rest)
  show ?case
    by (simp add: macro_name_check_carry macro_value_check_carry Cons.IH
        and_then_def split: sum.splits prod.splits)
qed

lemma template_collection_check_carry:
  assumes "\<And>a b xs. check_list (append_findings a b) xs = carry a (check_list b xs)"
  shows "template_collection_check parent child_tag check_list (append_findings a b) t
     = carry a (template_collection_check parent child_tag check_list b t)"
  by (simp add: template_collection_check_def assms split: option.splits)

lemma template_checks_carry:
  "template_name_check (append_findings a b) t = carry a (template_name_check b t)"
  "template_uuid_check (append_findings a b) t = carry a (template_uuid_check b t)"
  "template_groups_check (append_findings a b) t = carry a (template_groups_check b t)"
  by (simp_all add: template_name_check_def template_uuid_check_def template_groups_check_def
      validate_groups_carry split: option.splits)

lemma validate_template_carry:
  "validate_template (append_findings a b) t = carry a (validate_template b t)"
  unfolding validate_template_def
  by (simp add: template_checks_carry and_then_carry carry_and_then
      template_collection_check_carry validate_items_def validate_discovery_rules_def
      validate_triggers_def validate_macros_def items_loop_carry rules_loop_carry
      triggers_loop_carry macros_loop_carry)

text \<open>
  For a list of two templates: the findings are those of the first template on its own,
  then those of the second on its own.
\<close>

lemma two_templates_findings:
  "for_each validate_template self [t1, t2] =
     (case validate_template new_validator t1 of
        Inl e \<Rightarrow> Inl e
      | Inr d1 \<Rightarrow>
          (case validate_template new_validator t2 of
             Inl e \<Rightarrow> Inl e
           | Inr d2 \<Rightarrow> Inr (append_findings (append_findings self d1) d2)))"
proof -
  have one: "validate_template s t = carry s (validate_template new_validator t)" for s t
    using validate_template_carry [of s new_validator t] by simp
  consider (raised) e where "validate_template new_validator t1 = Inl e"
    | (returned) d1 where "validate_template new_validator t1 = Inr d1"
    by (rule sum.exhaust)
  then show ?thesis
  proof cases
    case raised
    then show ?thesis
      by (simp add: one [of self t1] and_then_def)
  next
    case returned
    then show ?thesis
      by (simp add: one [of self t1] one [of "append_findings self d1" t2] and_then_def
          carry_def split: sum.splits)
  qed
qed

text \<open>
  Whatever the validator holds from the templates before (\<open>self\<close>), validating a
  template adds exactly the findings that the template yields on a new validator.
\<close>

lemma validate_template_independent:
  "validate_template self t =
     (case validate_template new_validator t of
        Inl e \<Rightarrow> Inl e
      | Inr d \<Rightarrow> Inr (append_findings self d))"
  using validate_template_carry [of self new_validator t] by (simp add: carry_def)

subsection \<open>Duplicate findings are counted within one template\<close>

text \<open>
  Which messages are duplicate findings, and how the repeats of a list of keys add up.
\<close>

lemma duplicate_findings_simps [simp]:
  "duplicate_findings [] = 0"
  "duplicate_findings (ms @ [m]) = duplicate_findings ms + (if is_duplicate_finding m then 1 else 0)"
  by (simp_all add: duplicate_findings_def)

lemma duplicate_messages [simp]:
  "is_duplicate_finding (msg_duplicate_item_key k)"
  "is_duplicate_finding (msg_duplicate_rule_key k)"
  "is_duplicate_finding (msg_duplicate_macro k)"
  "is_duplicate_finding (msg_duplicate_expression k)"
  by (simp_all add: is_duplicate_finding_def msg_duplicate_item_key_def
      msg_duplicate_rule_key_def msg_duplicate_macro_def msg_duplicate_expression_def
      cross_def warn_def)

lemma other_messages [simp]:
  "\<not> is_duplicate_finding msg_missing_template_name"
  "\<not> is_duplicate_finding msg_missing_uuid"
  "\<not> is_duplicate_finding (msg_invalid_uuid u)"
  "\<not> is_duplicate_finding msg_no_groups"
  "\<not> is_duplicate_finding msg_group_missing_name"
  "\<not> is_duplicate_finding msg_item_missing_name"
  "\<not> is_duplicate_finding msg_item_missing_key"
  "\<not> is_duplicate_finding (msg_item_key_spaces k)"
  "\<not> is_duplicate_finding msg_item_missing_value_type"
  "\<not> is_duplicate_finding (msg_unusual_value_type i)"
  "\<not> is_duplicate_finding (msg_unknown_value_type k)"
  "\<not> is_duplicate_finding msg_rule_missing_name"
  "\<not> is_duplicate_finding msg_rule_missing_key"
  "\<not> is_duplicate_finding msg_no_prototypes"
  "\<not> is_duplicate_finding msg_trigger_missing_name"
  "\<not> is_duplicate_finding msg_trigger_missing_expression"
  "\<not> is_duplicate_finding msg_trigger_missing_priority"
  "\<not> is_duplicate_finding (msg_invalid_priority i)"
  "\<not> is_duplicate_finding (msg_unknown_priority k)"
  "\<not> is_duplicate_finding msg_empty_expression"
  "\<not> is_duplicate_finding msg_unmatched_parentheses"
  "\<not> is_duplicate_finding msg_unmatched_braces"
  "\<not> is_duplicate_finding msg_old_style_expression"
  "\<not> is_duplicate_finding msg_macro_missing_name"
  "\<not> is_duplicate_finding (msg_macro_convention k)"
  "\<not> is_duplicate_finding (msg_macro_no_value k)"
  by (simp_all add: is_duplicate_finding_def cross_def warn_def sq_def
      msg_missing_template_name_def msg_missing_uuid_def msg_invalid_uuid_def
      msg_no_groups_def msg_group_missing_name_def msg_item_missing_name_def
      msg_item_missing_key_def msg_item_key_spaces_def msg_item_missing_value_type_def
      msg_unusual_value_type_def msg_unknown_value_type_def msg_rule_missing_name_def
      msg_rule_missing_key_def msg_no_prototypes_def msg_trigger_missing_name_def
      msg_trigger_missing_expression_def msg_trigger_missing_priority_def
      msg_invalid_priority_def msg_unknown_priority_def msg_empty_expression_def
      msg_unmatched_parentheses_def msg_unmatched_braces_def msg_old_style_expression_def
      msg_macro_missing_name_def msg_macro_convention_def msg_macro_no_value_def)

lemma repeats_append:
  "repeats seen (xs @ ys) = repeats seen xs + repeats (seen \<union> set xs) ys"
  by (induction xs arbitrary: seen) simp_all

lemma repeats_distinct:
  "distinct ks \<Longrightarrow> seen \<inter> set ks = {} \<Longrightarrow> repeats seen ks = 0"
  by (induction ks arbitrary: seen) auto

lemma field_texts_Cons:
  "field_texts f (x # xs) = field_texts f [x] @ field_texts f xs"
  by (simp add: field_texts_def)

lemma field_texts_Nil [simp]: "field_texts f [] = []"
  by (simp add: field_texts_def)

lemma item_name_check_dups:
  "duplicate_findings (errors (item_name_check self item)) = duplicate_findings (errors self)"
  "warnings (item_name_check self item) = warnings self"
  by (simp_all add: item_name_check_def)

lemma item_key_check_dups:
  assumes "item_key_check seen self item = Inr (seen', self')"
  shows "duplicate_findings (errors self')
           = duplicate_findings (errors self) + repeats (Some ` seen) (field_texts ''key'' [item])"
    and "duplicate_findings (warnings self') = duplicate_findings (warnings self)"
    and "Some ` seen' = Some ` seen \<union> set (field_texts ''key'' [item])"
  using assms
  by (auto simp: item_key_check_def field_texts_def Let_def split: option.splits if_splits)

lemma item_value_type_check_dups:
  assumes "item_value_type_check self item = Inr self'"
  shows "duplicate_findings (errors self') = duplicate_findings (errors self)"
    and "duplicate_findings (warnings self') = duplicate_findings (warnings self)"
  using assms
  by (auto simp: item_value_type_check_def split: option.splits if_splits)

lemma items_loop_dups:
  assumes "items_loop seen self items = Inr self'"
  shows "duplicate_findings (errors self')
           = duplicate_findings (errors self) + repeats (Some ` seen) (field_texts ''key'' items)
         \<and> duplicate_findings (warnings self') = duplicate_findings (warnings self)"
  using assms
proof (induction items arbitrary: seen self)
  case Nil
  then show ?case by simp
next
  case (Cons item rest)
  from Cons.prems obtain seen1 self1 self2 where
    key: "item_key_check seen (item_name_check self item) item = Inr (seen1, self1)" and
    vt: "item_value_type_check self1 item = Inr self2" and
    rest: "items_loop seen1 self2 rest = Inr self'"
    by (auto simp: and_then_def split: sum.splits)
  from item_key_check_dups [OF key] item_value_type_check_dups [OF vt] Cons.IH [OF rest]
    item_name_check_dups [of self item]
  show ?case
    by (simp add: field_texts_Cons [of _ item rest] repeats_append)
qed

lemma rule_key_check_dups:
  assumes "rule_key_check seen self r = (seen', self')"
  shows "duplicate_findings (errors self')
           = duplicate_findings (errors self) + repeats seen (field_texts ''key'' [r])"
    and "warnings self' = warnings self"
    and "seen' = seen \<union> set (field_texts ''key'' [r])"
  using assms
  by (auto simp: rule_key_check_def field_texts_def Let_def split: option.splits if_splits)

lemma rule_prototypes_check_dups:
  "errors (rule_prototypes_check self r) = errors self"
  "duplicate_findings (warnings (rule_prototypes_check self r)) = duplicate_findings (warnings self)"
  by (simp_all add: rule_prototypes_check_def split: option.splits)

lemma rules_loop_dups:
  assumes "rules_loop seen self rules = Inr self'"
  shows "duplicate_findings (errors self')
           = duplicate_findings (errors self) + repeats seen (field_texts ''key'' rules)
         \<and> duplicate_findings (warnings self') = duplicate_findings (warnings self)"
  using assms
proof (induction rules arbitrary: seen self)
  case Nil
  then show ?case by simp
next
  case (Cons r rest)
  define self1 where
    "self1 = (if find_child ''name'' r = None then add_error msg_rule_missing_name self else self)"
  obtain seen1 self2 where key: "rule_key_check seen self1 r = (seen1, self2)"
    by (rule prod.exhaust)
  from Cons.prems key have rest: "rules_loop seen1 (rule_prototypes_check self2 r) rest = Inr self'"
    by (simp add: self1_def Let_def)
  have s1: "duplicate_findings (errors self1) = duplicate_findings (errors self)"
    "warnings self1 = warnings self"
    by (simp_all add: self1_def)
  from rule_key_check_dups [OF key] Cons.IH [OF rest] s1 rule_prototypes_check_dups [of self2 r]
  show ?case
    by (simp add: field_texts_Cons [of _ r rest] repeats_append)
qed

lemma validate_trigger_expression_dups:
  "duplicate_findings (errors (validate_trigger_expression self x)) = duplicate_findings (errors self)"
  "duplicate_findings (warnings (validate_trigger_expression self x))
     = duplicate_findings (warnings self)"
  by (simp_all add: validate_trigger_expression_def Let_def split: option.splits)

lemma trigger_expression_check_dups:
  assumes "trigger_expression_check seen self t = Inr (seen', self')"
  shows "duplicate_findings (errors self') = duplicate_findings (errors self)"
    and "duplicate_findings (warnings self')
           = duplicate_findings (warnings self) + repeats seen (field_texts ''expression'' [t])"
    and "seen' = seen \<union> set (field_texts ''expression'' [t])"
  using assms
  by (auto simp: trigger_expression_check_def field_texts_def Let_def and_then_def
      validate_trigger_expression_dups split: option.splits if_splits)

lemma trigger_priority_check_dups:
  assumes "trigger_priority_check self t = Inr self'"
  shows "errors self' = errors self"
    and "duplicate_findings (warnings self') = duplicate_findings (warnings self)"
  using assms
  by (auto simp: trigger_priority_check_def split: option.splits if_splits)

lemma triggers_loop_dups:
  assumes "triggers_loop seen self triggers = Inr self'"
  shows "duplicate_findings (errors self') = duplicate_findings (errors self)
         \<and> duplicate_findings (warnings self')
             = duplicate_findings (warnings self) + repeats seen (field_texts ''expression'' triggers)"
  using assms
proof (induction triggers arbitrary: seen self)
  case Nil
  then show ?case by simp
next
  case (Cons t rest)
  define self1 where
    "self1 = (if find_child ''name'' t = None then add_error msg_trigger_missing_name self else self)"
  from Cons.prems obtain seen1 self2 self3 where
    ex: "trigger_expression_check seen self1 t = Inr (seen1, self2)" and
    pr: "trigger_priority_check self2 t = Inr self3" and
    rest: "triggers_loop seen1 self3 rest = Inr self'"
    by (auto simp: and_then_def self1_def Let_def split: sum.splits)
  have s1: "duplicate_findings (errors self1) = duplicate_findings (errors self)"
    "warnings self1 = warnings self"
    by (simp_all add: self1_def)
  from trigger_expression_check_dups [OF ex] trigger_priority_check_dups [OF pr]
    Cons.IH [OF rest] s1
  show ?case
    by (simp add: field_texts_Cons [of _ t rest] repeats_append)
qed

lemma macro_name_check_dups:
  assumes "macro_name_check seen self m = Inr (seen', self')"
  shows "duplicate_findings (errors self')
           = duplicate_findings (errors self) + repeats (Some ` seen) (field_texts ''macro'' [m])"
    and "duplicate_findings (warnings self') = duplicate_findings (warnings self)"
    and "Some ` seen' = Some ` seen \<union> set (field_texts ''macro'' [m])"
  using assms
  by (auto simp: macro_name_check_def field_texts_def Let_def split: option.splits if_splits)

lemma macro_value_check_dups:
  "errors (macro_value_check self m) = errors self"
  "duplicate_findings (warnings (macro_value_check self m)) = duplicate_findings (warnings self)"
  by (simp_all add: macro_value_check_def)

lemma macros_loop_dups:
  assumes "macros_loop seen self macros = Inr self'"
  shows "duplicate_findings (errors self')
           = duplicate_findings (errors self) + repeats (Some ` seen) (field_texts ''macro'' macros)
         \<and> duplicate_findings (warnings self') = duplicate_findings (warnings self)"
  using assms
proof (induction macros arbitrary: seen self)
  case Nil
  then show ?case by simp
next
  case (Cons m rest)
  from Cons.prems obtain seen1 self1 where
    nm: "macro_name_check seen self m = Inr (seen1, self1)" and
    rest: "macros_loop seen1 (macro_value_check self1 m) rest = Inr self'"
    by (auto simp: and_then_def split: sum.splits)
  from macro_name_check_dups [OF nm] Cons.IH [OF rest] macro_value_check_dups [of self1 m]
  show ?case
    by (simp add: field_texts_Cons [of _ m rest] repeats_append)
qed

lemma template_name_check_dups:
  assumes "template_name_check self t = Inr self'"
  shows "duplicate_findings (errors self') = duplicate_findings (errors self)"
    and "warnings self' = warnings self"
  using assms by (auto simp: template_name_check_def split: if_splits)

lemma template_uuid_check_dups:
  assumes "template_uuid_check self t = Inr self'"
  shows "duplicate_findings (errors self') = duplicate_findings (errors self)"
    and "duplicate_findings (warnings self') = duplicate_findings (warnings self)"
  using assms by (auto simp: template_uuid_check_def split: option.splits if_splits)

lemma validate_groups_dups:
  assumes "for_each validate_group self gs = Inr self'"
  shows "duplicate_findings (errors self') = duplicate_findings (errors self)
         \<and> warnings self' = warnings self"
  using assms
proof (induction gs arbitrary: self)
  case Nil
  then show ?case by simp
next
  case (Cons g gs)
  then obtain s1 where g: "validate_group self g = Inr s1"
    and r: "for_each validate_group s1 gs = Inr self'"
    by (auto simp: and_then_def split: sum.splits)
  from g have "duplicate_findings (errors s1) = duplicate_findings (errors self)"
    "warnings s1 = warnings self"
    by (auto simp: validate_group_def split: if_splits)
  with Cons.IH [OF r] show ?case by simp
qed

lemma template_groups_check_dups:
  assumes "template_groups_check self t = Inr self'"
  shows "duplicate_findings (errors self') = duplicate_findings (errors self)"
    and "duplicate_findings (warnings self') = duplicate_findings (warnings self)"
  using assms validate_groups_dups
  by (auto simp: template_groups_check_def validate_groups_def split: option.splits if_splits)

lemma items_collection_dups:
  assumes "template_collection_check ''items'' ''item'' validate_items self t = Inr self'"
  shows "duplicate_findings (errors self')
           = duplicate_findings (errors self) + repeats {} (item_keys t)"
    and "duplicate_findings (warnings self') = duplicate_findings (warnings self)"
  using assms items_loop_dups [of "{}" self _ self']
  by (auto simp: template_collection_check_def validate_items_def item_keys_def
      collection_def split: option.splits)

lemma rules_collection_dups:
  assumes "template_collection_check ''discovery_rules'' ''discovery_rule''
             validate_discovery_rules self t = Inr self'"
  shows "duplicate_findings (errors self')
           = duplicate_findings (errors self) + repeats {} (rule_keys t)"
    and "duplicate_findings (warnings self') = duplicate_findings (warnings self)"
  using assms rules_loop_dups [of "{}" self _ self']
  by (auto simp: template_collection_check_def validate_discovery_rules_def rule_keys_def
      collection_def split: option.splits)

lemma triggers_collection_dups:
  assumes "template_collection_check ''triggers'' ''trigger'' validate_triggers self t = Inr self'"
  shows "duplicate_findings (errors self') = duplicate_findings (errors self)"
    and "duplicate_findings (warnings self')
           = duplicate_findings (warnings self) + repeats {} (trigger_expressions t)"
  using assms triggers_loop_dups [of "{}" self _ self']
  by (auto simp: template_collection_check_def validate_triggers_def trigger_expressions_def
      collection_def split: option.splits)

lemma macros_collection_dups:
  assumes "template_collection_check ''macros'' ''macro'' validate_macros self t = Inr self'"
  shows "duplicate_findings (errors self')
           = duplicate_findings (errors self) + repeats {} (macro_names t)"
    and "duplicate_findings (warnings self') = duplicate_findings (warnings self)"
  using assms macros_loop_dups [of "{}" self _ self']
  by (auto simp: template_collection_check_def validate_macros_def macro_names_def
      collection_def split: option.splits)

lemma validate_template_dups:
  assumes "validate_template self t = Inr self'"
  shows "duplicate_findings (errors self')
           = duplicate_findings (errors self)
             + repeats {} (item_keys t) + repeats {} (rule_keys t) + repeats {} (macro_names t)"
    and "duplicate_findings (warnings self')
           = duplicate_findings (warnings self) + repeats {} (trigger_expressions t)"
proof -
  from assms obtain s1 s2 s3 s4 s5 s6 where
    c1: "template_name_check self t = Inr s1" and
    c2: "template_uuid_check s1 t = Inr s2" and
    c3: "template_groups_check s2 t = Inr s3" and
    c4: "template_collection_check ''items'' ''item'' validate_items s3 t = Inr s4" and
    c5: "template_collection_check ''discovery_rules'' ''discovery_rule''
           validate_discovery_rules s4 t = Inr s5" and
    c6: "template_collection_check ''triggers'' ''trigger'' validate_triggers s5 t = Inr s6" and
    c7: "template_collection_check ''macros'' ''macro'' validate_macros s6 t = Inr self'"
    unfolding validate_template_def by (auto simp: and_then_def split: sum.splits)
  note facts = template_name_check_dups [OF c1] template_uuid_check_dups [OF c2]
    template_groups_check_dups [OF c3] items_collection_dups [OF c4]
    rules_collection_dups [OF c5] triggers_collection_dups [OF c6] macros_collection_dups [OF c7]
  from facts show "duplicate_findings (errors self')
           = duplicate_findings (errors self)
             + repeats {} (item_keys t) + repeats {} (rule_keys t) + repeats {} (macro_names t)"
    by simp
  from facts show "duplicate_findings (warnings self')
           = duplicate_findings (warnings self) + repeats {} (trigger_expressions t)"
    by simp
qed

lemma for_each_append:
  "for_each body self (xs @ ys) = and_then (for_each body self xs) (\<lambda>s. for_each body s ys)"
  by (induction xs arbitrary: self) (simp_all add: and_then_def split: sum.splits)

lemma no_duplicate_findings: "duplicate_findings ms = 0 \<longleftrightarrow> filter is_duplicate_finding ms = []"
  by (simp add: duplicate_findings_def)

text \<open>
  Claim C4. The seen-key, seen-macro and seen-expression sets start empty for each
  sub-collection of each template. For a template \<open>t\<close> validated after any templates
  \<open>earlier\<close>: the findings recorded for \<open>t\<close> are those that \<open>t\<close> yields on a new validator;
  the duplicate findings among them are as many as the repeats within \<open>t\<close>'s own item
  keys, rule keys and macro names (errors) and within its own trigger expressions
  (warnings), counted from empty sets. So when no collection of \<open>t\<close> holds a key twice,
  no duplicate finding is recorded for \<open>t\<close>, whatever keys the earlier templates hold.
\<close>

theorem duplicates_counted_per_template:
  assumes "for_each validate_template self (earlier @ [t]) = Inr self'"
  shows "\<exists>s1 d. for_each validate_template self earlier = Inr s1
     \<and> validate_template new_validator t = Inr d
     \<and> self' = append_findings s1 d
     \<and> duplicate_findings (errors d)
         = repeats {} (item_keys t) + repeats {} (rule_keys t) + repeats {} (macro_names t)
     \<and> duplicate_findings (warnings d) = repeats {} (trigger_expressions t)
     \<and> (keys_distinct t \<longrightarrow>
          filter is_duplicate_finding (errors d) = []
          \<and> filter is_duplicate_finding (warnings d) = [])"
proof -
  from assms obtain s1 where
    e: "for_each validate_template self earlier = Inr s1" and
    l: "validate_template s1 t = Inr self'"
    by (auto simp: for_each_append and_then_def split: sum.splits)
  have "validate_template s1 t = carry s1 (validate_template new_validator t)"
    using validate_template_carry [of s1 new_validator t] by simp
  with l obtain d where d: "validate_template new_validator t = Inr d"
    and a: "self' = append_findings s1 d"
    by (auto simp: carry_def split: sum.splits)
  note c = validate_template_dups [OF d]
  have ce: "duplicate_findings (errors d)
         = repeats {} (item_keys t) + repeats {} (rule_keys t) + repeats {} (macro_names t)"
    and cw: "duplicate_findings (warnings d) = repeats {} (trigger_expressions t)"
    using c by (simp_all add: new_validator_def)
  have "filter is_duplicate_finding (errors d) = []
          \<and> filter is_duplicate_finding (warnings d) = []" if "keys_distinct t"
    using that ce cw
    by (simp add: keys_distinct_def no_duplicate_findings [symmetric] repeats_distinct)
  with e d a ce cw show ?thesis
    by blast
qed

text \<open>
  The sample template twice: both hold an item with key \<open>cpu.load\<close>, a rule with key
  \<open>disk.discovery\<close>, the macro \<open>{$LIMIT}\<close> and the same trigger expression. The second
  adds its missing-uuid warning and no duplicate finding.
\<close>

theorem duplicates_counted_per_template_witness:
  "for_each validate_template new_validator ([template_sample] @ [template_sample]) =
     Inr \<lparr>errors = [], warnings = [msg_missing_uuid, msg_missing_uuid], info = [],
          root = None\<rparr>
   \<and> keys_distinct template_sample
   \<and> validate_template new_validator template_sample =
       Inr \<lparr>errors = [], warnings = [msg_missing_uuid], info = [], root = None\<rparr>
   \<and> filter is_duplicate_finding [] = []
   \<and> filter is_duplicate_finding [msg_missing_uuid] = []"
proof -
  have run: "for_each validate_template new_validator ([template_sample] @ [template_sample]) =
     Inr \<lparr>errors = [], warnings = [msg_missing_uuid, msg_missing_uuid], info = [],
          root = None\<rparr>"
    by code_simp
  have one: "validate_template new_validator template_sample =
       Inr \<lparr>errors = [], warnings = [msg_missing_uuid], info = [], root = None\<rparr>"
    by code_simp
  have kd: "keys_distinct template_sample"
    by code_simp
  from duplicates_counted_per_template [OF run] one kd
  have "filter is_duplicate_finding [] = []
     \<and> filter is_duplicate_finding [msg_missing_uuid] = []"
    by auto
  with run one kd show ?thesis
    by blast
qed

subsection \<open>Trigger expressions\<close>

text \<open>
  Claim C5. The expression \<open>(A=1\<close> yields the unmatched-parentheses error and nothing
  else; the expression \<open>{A:B.func()}\<close> yields the old-style warning and nothing else (no
  parenthesis or brace error).
\<close>

theorem expression_examples:
  "validate_trigger_expression self (Some ''(A=1'') = add_error msg_unmatched_parentheses self
   \<and> validate_trigger_expression self (Some ''{A:B.func()}'')
       = add_warning msg_old_style_expression self"
  by (simp add: validate_trigger_expression_def old_style_pattern_def)

theorem expression_examples_witness:
  "errors (validate_trigger_expression new_validator (Some ''(A=1'')) = [msg_unmatched_parentheses]
   \<and> warnings (validate_trigger_expression new_validator (Some ''(A=1'')) = []
   \<and> errors (validate_trigger_expression new_validator (Some ''{A:B.func()}'')) = []
   \<and> warnings (validate_trigger_expression new_validator (Some ''{A:B.func()}''))
       = [msg_old_style_expression]"
  using expression_examples [of new_validator] by (simp add: new_validator_def)

subsection \<open>Elements without text\<close>

lemma py_int_three: "py_int ''3'' = Some 3"
  by code_simp

text \<open>
  An expression element without text is recorded as an empty expression when no such
  element came before it in the collection, and raises \<open>TypeError\<close> when one did.
\<close>

lemma expression_without_text:
  assumes "find_child ''expression'' trigger = Some x" and "text_of x = None"
  shows "trigger_expression_check seen self trigger =
     (if None \<in> seen then Inl TypeError
      else Inr (insert None seen, add_error msg_empty_expression self))"
  using assms
  by (simp add: trigger_expression_check_def and_then_def validate_trigger_expression_def)

lemma one_expression_without_text:
  "validate_triggers self [trigger_without_expression_text ''a'']
     = Inr (add_error msg_empty_expression self)"
  by (simp add: validate_triggers_def trigger_without_expression_text_def leaf_def
      trigger_expression_check_def find_child_def and_then_def trigger_priority_check_def
      validate_trigger_expression_def py_int_three)

text \<open>
  Claim C10 fails on the code. Two triggers whose expression elements have no text: the
  first is recorded as an empty expression; at the second the membership test finds
  \<open>None\<close> among the seen expressions and formatting the warning (\<open>expr_text[:50]\<close>)
  raises \<open>TypeError\<close>, so no duplicate warning is recorded and validation ends.
\<close>

theorem two_expressions_without_text_raise:
  "validate_triggers self
     [trigger_without_expression_text ''a'', trigger_without_expression_text ''b'']
     = Inl TypeError"
  by (simp add: validate_triggers_def trigger_without_expression_text_def leaf_def
      trigger_expression_check_def find_child_def and_then_def trigger_priority_check_def
      validate_trigger_expression_def py_int_three)

subsection \<open>The version check\<close>

lemma py_split_not_empty: "py_split sep s \<noteq> []"
  by (induction s) (auto split: list.splits)

text \<open>
  With a text, the version check never raises and never records an error: it records
  the info entry and at most one warning.
\<close>

lemma validate_version_with_text:
  assumes "root self = Some r" and "find_child ''version'' r = Some v"
    and "text_of v = Some vt"
  shows "validate_version self =
     Inr (let self1 = add_info (check @ '' Zabbix version: '' @ vt) self in
          case py_float (hd (py_split (CHR ''.'') vt)) of
            None \<Rightarrow> add_warning (msg_unparsed_version vt) self1
          | Some x \<Rightarrow> if lt_seven x then add_warning (msg_old_version vt) self1 else self1)"
  using assms py_split_not_empty [of "CHR ''.''" vt]
  by (auto simp: validate_version_def fmt_def Let_def split: list.splits option.splits)

lemma validate_version_without_text:
  assumes "root self = Some r" and "find_child ''version'' r = Some v"
    and "text_of v = None"
  shows "validate_version self = Inl AttributeError"
  using assms by (simp add: validate_version_def)

text \<open>
  Claim C2 fails on the code. A version element without text: \<open>version_text.split\<close>
  raises \<open>AttributeError\<close>, which the \<open>except (ValueError, IndexError)\<close> clause does not
  catch; no warning is recorded and \<open>validate\<close> returns no verdict.
\<close>

theorem version_without_text_raises:
  "validate (Parsed doc_version_without_text) = Inl AttributeError"
  by code_simp

subsection \<open>A document without a templates element\<close>

lemma validate_templates_missing:
  assumes "root self = Some r" and "find_child ''templates'' r = None"
  shows "validate_templates self = Inr (add_error msg_missing_templates self)"
  using assms by (simp add: validate_templates_def)

lemma validate_version_errors:
  assumes "root self = Some r" and "validate_version self = Inr self'"
  shows "errors self' = errors self @ (if find_child ''version'' r = None then [msg_missing_version] else [])"
    and "root self' = root self"
  using assms
  by (auto simp: validate_version_def Let_def split: option.splits list.splits if_splits)

lemma validate_version_returns:
  assumes "root self = Some r" and "\<And>v. find_child ''version'' r = Some v \<Longrightarrow> text_of v \<noteq> None"
  shows "\<exists>self'. validate_version self = Inr self'"
  using assms
  by (auto simp: validate_version_def Let_def split: option.splits list.splits if_splits)

text \<open>
  Claim C9 as stated fails: each check records its own error, so a document without a
  templates element can hold more than one. The bare root element has neither a version
  nor a templates element, and gets two errors.
\<close>

theorem only_root_two_errors:
  "find_child ''templates'' doc_only_root = None
   \<and> validate (Parsed doc_only_root) =
       Inr (False, \<lparr>errors = [msg_missing_version, msg_missing_templates], warnings = [],
                    info = [check @ '' XML parsing successful'',
                            check @ '' Root element is '' @ sq @ ''zabbix_export'' @ sq],
                    root = Some doc_only_root\<rparr>)
   \<and> length [msg_missing_version, msg_missing_templates] \<noteq> 1"
  by code_simp

text \<open>
  Claim C9, amended. For a document without a templates element whose version element,
  if there is one, has a text: the root and version checks return a validator \<open>self3\<close>;
  the templates check adds its one error to it and does nothing else (no template is
  checked); \<open>validate\<close> returns the verdict FAIL and the exit code for the file is 1.
  The error list is the root error (when the root tag is wrong), the missing-version
  error (when there is no version element) and, last, the error of the templates check.
  So there is exactly one error when the root tag and the version element are in order.
\<close>

theorem missing_templates_fails:
  assumes "find_child ''templates'' r = None"
    and "\<And>v. find_child ''version'' r = Some v \<Longrightarrow> text_of v \<noteq> None"
  shows "\<exists>self3.
       and_then (validate_root_structure (snd (parse_xml (Parsed r) new_validator)))
         validate_version = Inr self3
     \<and> validate_templates self3 = Inr (add_error msg_missing_templates self3)
     \<and> validate (Parsed r) = Inr (False, add_error msg_missing_templates self3)
     \<and> errors (add_error msg_missing_templates self3) =
         (if tag r \<noteq> ''zabbix_export'' then [msg_root (tag r)] else [])
         @ (if find_child ''version'' r = None then [msg_missing_version] else [])
         @ [msg_missing_templates]
     \<and> exit_code [Parsed r] = Inr 1"
proof -
  define self1 where "self1 = snd (parse_xml (Parsed r) new_validator)"
  define self2 where "self2 = (if tag r \<noteq> ''zabbix_export'' then add_error (msg_root (tag r)) self1
      else add_info (check @ '' Root element is '' @ sq @ ''zabbix_export'' @ sq) self1)"
  have r1: "root self1 = Some r" and e1: "errors self1 = []"
    by (simp_all add: self1_def parse_xml_def new_validator_def)
  have rs: "validate_root_structure self1 = Inr self2"
    using r1 by (simp add: validate_root_structure_def self2_def)
  have r2: "root self2 = Some r" and
    e2: "errors self2 = (if tag r \<noteq> ''zabbix_export'' then [msg_root (tag r)] else [])"
    using r1 e1 by (simp_all add: self2_def)
  from validate_version_returns [OF r2 assms(2)] obtain self3 where
    v: "validate_version self2 = Inr self3" by blast
  note v3 = validate_version_errors [OF r2 v]
  have t: "validate_templates self3 = Inr (add_error msg_missing_templates self3)"
    using validate_templates_missing [of self3 r] v3(2) r2 assms(1) by simp
  have run: "validate (Parsed r) = Inr (False, add_error msg_missing_templates self3)"
    using rs v t by (simp add: validate_def parse_xml_def and_then_def self1_def)
  moreover have "exit_code [Parsed r] = Inr 1"
    using run by (simp add: exit_code_def and_then_def)
  moreover have "and_then (validate_root_structure (snd (parse_xml (Parsed r) new_validator)))
         validate_version = Inr self3"
    using rs v by (simp add: and_then_def self1_def)
  ultimately show ?thesis
    using v3(1) e2 t by auto
qed

text \<open>A document with the right root and a version, without templates: one error.\<close>

theorem missing_templates_fails_witness:
  "find_child ''templates'' doc_without_templates = None
   \<and> validate (Parsed doc_without_templates) =
       Inr (False, \<lparr>errors = [msg_missing_templates], warnings = [],
                    info = [check @ '' XML parsing successful'',
                            check @ '' Root element is '' @ sq @ ''zabbix_export'' @ sq,
                            check @ '' Zabbix version: 7.0''],
                    root = Some doc_without_templates\<rparr>)
   \<and> exit_code [Parsed doc_without_templates] = Inr 1"
proof -
  have nt: "find_child ''templates'' doc_without_templates = None"
    by code_simp
  have vt: "\<And>v. find_child ''version'' doc_without_templates = Some v \<Longrightarrow> text_of v \<noteq> None"
    by (simp add: doc_without_templates_def find_child_def leaf_def)
  have run: "validate (Parsed doc_without_templates) =
       Inr (False, \<lparr>errors = [msg_missing_templates], warnings = [],
                    info = [check @ '' XML parsing successful'',
                            check @ '' Root element is '' @ sq @ ''zabbix_export'' @ sq,
                            check @ '' Zabbix version: 7.0''],
                    root = Some doc_without_templates\<rparr>)"
    by code_simp
  from missing_templates_fails [OF nt vt] nt run show ?thesis
    by auto
qed

subsection \<open>A wrong root tag\<close>

text \<open>
  The root check itself never stops validation: with a wrong root tag it records its
  error and \<open>validate\<close> goes on with the version and templates checks. A verdict, when
  there is one, is FAIL.
\<close>

lemma wrong_root_continues:
  assumes "tag r \<noteq> ''zabbix_export''"
  shows "validate (Parsed r) =
     and_then (validate_version
                 (add_error (msg_root (tag r)) (snd (parse_xml (Parsed r) new_validator))))
       (\<lambda>self3. and_then (validate_templates self3) (\<lambda>self4. Inr (errors self4 = [], self4)))"
  using assms
  by (simp add: validate_def parse_xml_def validate_root_structure_def and_then_def)

text \<open>The checks after the root check only append to the error list.\<close>

lemma for_each_errors_grow:
  assumes "\<And>s x s'. body s x = Inr s' \<Longrightarrow> \<exists>es. errors s' = errors s @ es"
    and "for_each body self xs = Inr self'"
  shows "\<exists>es. errors self' = errors self @ es"
  using assms(2)
proof (induction xs arbitrary: self)
  case Nil
  then show ?case by simp
next
  case (Cons x xs)
  then obtain s1 where b: "body self x = Inr s1" and r: "for_each body s1 xs = Inr self'"
    by (auto simp: and_then_def split: sum.splits)
  from assms(1) [OF b] Cons.IH [OF r] show ?case by auto
qed

lemma validate_template_errors_grow:
  assumes "validate_template self t = Inr self'"
  shows "\<exists>es. errors self' = errors self @ es"
proof -
  have "validate_template self t = carry self (validate_template new_validator t)"
    using validate_template_carry [of self new_validator t] by simp
  with assms show ?thesis
    by (auto simp: carry_def append_findings_def split: sum.splits)
qed

lemma validate_templates_errors_grow:
  assumes "validate_templates self = Inr self'"
  shows "\<exists>es. errors self' = errors self @ es"
proof -
  have loop: "\<exists>es. errors s' = errors s @ es"
    if "for_each validate_template s xs = Inr s'" for s xs s'
    using validate_template_errors_grow that
    by (rule for_each_errors_grow [where body = validate_template])
  from assms show ?thesis
    by (auto simp: validate_templates_def Let_def split: option.splits if_splits dest: loop)
qed

text \<open>
  So, with a wrong root tag, a verdict is FAIL and the root error is the first error.
\<close>

lemma wrong_root_verdict:
  assumes "tag r \<noteq> ''zabbix_export''" and "validate (Parsed r) = Inr (passed, self')"
  shows "\<not> passed" and "hd (errors self') = msg_root (tag r)"
proof -
  define self2 where
    "self2 = add_error (msg_root (tag r)) (snd (parse_xml (Parsed r) new_validator))"
  have r2: "root self2 = Some r" and e2: "errors self2 = [msg_root (tag r)]"
    by (simp_all add: self2_def parse_xml_def new_validator_def)
  from assms wrong_root_continues [OF assms(1)] obtain self3 where
    v: "validate_version self2 = Inr self3" and t: "validate_templates self3 = Inr self'"
    and p: "passed = (errors self' = [])"
    by (auto simp: and_then_def self2_def split: sum.splits)
  from validate_version_errors(1) [OF r2 v] validate_templates_errors_grow [OF t] e2
  obtain es where "errors self' = msg_root (tag r) # es"
    by auto
  with p show "\<not> passed" and "hd (errors self') = msg_root (tag r)"
    by simp_all
qed

text \<open>
  Claim C8 fails on the code. A document whose root tag is \<open>foo\<close> and whose version
  element has no text: the root error is recorded, then the version check raises
  \<open>AttributeError\<close> and \<open>validate\<close> returns no verdict.
\<close>

theorem wrong_root_version_without_text_raises:
  "validate (Parsed doc_wrong_root_version_without_text) = Inl AttributeError"
  by code_simp

subsection \<open>Characters and patterns\<close>

lemma ord_char_of: "n < 256 \<Longrightarrow> ord (char_of n) = n"
  by (simp add: ord_def)

lemma ord_inject: "ord c = ord d \<longleftrightarrow> c = d"
  by (simp add: ord_def)

lemma ord_literals:
  "ord (CHR ''0'') = 48" "ord (CHR ''9'') = 57" "ord (CHR ''a'') = 97" "ord (CHR ''f'') = 102"
  "ord (CHR ''A'') = 65" "ord (CHR ''F'') = 70" "ord (CHR ''Z'') = 90" "ord (CHR ''z'') = 122"
  "ord (CHR ''_'') = 95" "ord (CHR ''-'') = 45"
  by (simp_all add: ord_def)

lemma ord_less: "ord c < 256"
proof -
  have "ord c = ord c mod 256"
    unfolding ord_def by (metis of_char_mod_256)
  then show ?thesis
    by (metis mod_less_divisor zero_less_numeral)
qed

lemma ord_lower:
  "ord (lower c) = (if 65 \<le> ord c \<and> ord c \<le> 90 then ord c + 32 else ord c)"
  by (simp add: lower_def in_range_def ord_char_of ord_literals)

lemma ord_upper:
  "ord (upper c) = (if 97 \<le> ord c \<and> ord c \<le> 122 then ord c - 32 else ord c)"
  using ord_less [of c] by (simp add: upper_def in_range_def ord_char_of ord_literals)

lemma in_range_ord: "in_range c (a, b) \<longleftrightarrow> ord a \<le> ord c \<and> ord c \<le> ord b"
  by (simp add: in_range_def)

lemma in_class_hex: "in_class True hex c = is_hex c"
  by (simp add: hex_def is_hex_def in_range_ord ord_lower ord_upper ord_literals) arith

lemma lower_eq_dash: "lower c = CHR ''-'' \<longleftrightarrow> c = CHR ''-''"
proof -
  have "lower c = CHR ''-'' \<longleftrightarrow> ord (lower c) = 45"
    using ord_inject [of "lower c" "CHR ''-''"] by (simp add: ord_literals)
  also have "\<dots> \<longleftrightarrow> ord c = 45"
    by (simp add: ord_lower)
  also have "\<dots> \<longleftrightarrow> c = CHR ''-''"
    using ord_inject [of c "CHR ''-''"] by (simp add: ord_literals)
  finally show ?thesis .
qed

lemma in_class_dash: "in_class ic (Lit (CHR ''-'')) c \<longleftrightarrow> c = CHR ''-''"
  using lower_eq_dash [of c] lower_eq_dash [of "CHR ''-''"] by auto

lemma match_one_drop:
  "match_here ic (One k # p) (drop n s) =
     (n < length s \<and> in_class ic k (s ! n) \<and> match_here ic p (drop (Suc n) s))"
proof -
  consider (short) "length s \<le> n" | (long) "n < length s"
    by linarith
  then show ?thesis
  proof cases
    case short
    then show ?thesis by simp
  next
    case long
    then have "drop n s = s ! n # drop (Suc n) s"
      by (simp add: Cons_nth_drop_Suc)
    with long show ?thesis by simp
  qed
qed

lemma match_exactly_drop:
  "match_here ic (Exactly m k # p) (drop n s) =
     (m \<le> length s - n \<and> list_all (in_class ic k) (take m (drop n s))
      \<and> match_here ic p (drop (n + m) s))"
  by (auto simp: add.commute)

lemma match_dollar_drop:
  "match_here ic [Dollar] (drop n s) =
     (length s \<le> n \<or> (length s = Suc n \<and> s ! n = CHR 0x0A))"
proof -
  consider (short) "length s \<le> n" | (long) "n < length s"
    by linarith
  then show ?thesis
  proof cases
    case short
    then show ?thesis by simp
  next
    case long
    then have d: "drop n s = s ! n # drop (Suc n) s"
      by (simp add: Cons_nth_drop_Suc)
    from long show ?thesis
      by (auto simp: d)
  qed
qed

subsection \<open>UUID format\<close>

lemma list_all_hex: "list_all (in_class True hex) xs = list_all is_hex xs"
  by (induction xs) (simp_all add: in_class_hex)

lemma dashed_conditions:
  "re_match True uuid_pattern_dashed s =
     (list_all is_hex (take 8 s) \<and> s ! 8 = CHR ''-''
      \<and> list_all is_hex (take 4 (drop 9 s)) \<and> s ! 13 = CHR ''-''
      \<and> list_all is_hex (take 4 (drop 14 s)) \<and> s ! 18 = CHR ''-''
      \<and> list_all is_hex (take 4 (drop 19 s)) \<and> s ! 23 = CHR ''-''
      \<and> list_all is_hex (take 12 (drop 24 s))
      \<and> (length s = 36 \<or> (length s = 37 \<and> s ! 36 = CHR 0x0A)))"
proof -
  have "re_match True uuid_pattern_dashed s = match_here True uuid_pattern_dashed (drop 0 s)"
    by (simp add: re_match_def)
  also have "\<dots> = (list_all is_hex (take 8 s) \<and> s ! 8 = CHR ''-''
      \<and> list_all is_hex (take 4 (drop 9 s)) \<and> s ! 13 = CHR ''-''
      \<and> list_all is_hex (take 4 (drop 14 s)) \<and> s ! 18 = CHR ''-''
      \<and> list_all is_hex (take 4 (drop 19 s)) \<and> s ! 23 = CHR ''-''
      \<and> list_all is_hex (take 12 (drop 24 s))
      \<and> (length s = 36 \<or> (length s = 37 \<and> s ! 36 = CHR 0x0A)))"
    unfolding uuid_pattern_dashed_def
    by (simp only: match_one_drop match_exactly_drop match_dollar_drop in_class_dash
        list_all_hex) (simp, linarith)
  finally show ?thesis .
qed


lemma nodash_conditions:
  "re_match True uuid_pattern_nodash s =
     (list_all is_hex (take 32 s)
      \<and> (length s = 32 \<or> (length s = 33 \<and> s ! 32 = CHR 0x0A)))"
proof -
  have "re_match True uuid_pattern_nodash s = match_here True uuid_pattern_nodash (drop 0 s)"
    by (simp add: re_match_def)
  also have "\<dots> = (list_all is_hex (take 32 s)
      \<and> (length s = 32 \<or> (length s = 33 \<and> s ! 32 = CHR 0x0A)))"
    unfolding uuid_pattern_nodash_def
    by (simp only: match_exactly_drop match_dollar_drop list_all_hex) (simp, linarith)
  finally show ?thesis .
qed

lemma last_is_nth: "length s = Suc n \<Longrightarrow> last s = s ! n"
  by (cases s rule: rev_cases) auto

lemma dashed_with_line_feed:
  assumes "length s = 37"
  shows "spec_uuid_dashed (butlast s) =
     (list_all is_hex (take 8 s) \<and> s ! 8 = CHR ''-''
      \<and> list_all is_hex (take 4 (drop 9 s)) \<and> s ! 13 = CHR ''-''
      \<and> list_all is_hex (take 4 (drop 14 s)) \<and> s ! 18 = CHR ''-''
      \<and> list_all is_hex (take 4 (drop 19 s)) \<and> s ! 23 = CHR ''-''
      \<and> list_all is_hex (take 12 (drop 24 s)))"
  using assms by (simp add: spec_uuid_dashed_def butlast_conv_take drop_take)

lemma nodash_with_line_feed:
  assumes "length s = 33"
  shows "spec_uuid_nodash (butlast s) = list_all is_hex (take 32 s)"
  using assms by (simp add: spec_uuid_nodash_def butlast_conv_take)

lemma is_valid_uuid_shapes:
  "is_valid_uuid s \<longleftrightarrow>
     spec_uuid s \<or> (s \<noteq> [] \<and> last s = CHR 0x0A \<and> spec_uuid (butlast s))"
proof -
  have a: "spec_uuid_dashed s \<longleftrightarrow> re_match True uuid_pattern_dashed s \<and> length s = 36"
    by (auto simp: dashed_conditions spec_uuid_dashed_def)
  have b: "spec_uuid_nodash s \<longleftrightarrow> re_match True uuid_pattern_nodash s \<and> length s = 32"
    by (auto simp: nodash_conditions spec_uuid_nodash_def)
  have c: "s \<noteq> [] \<and> last s = CHR 0x0A \<and> spec_uuid_dashed (butlast s)
       \<longleftrightarrow> re_match True uuid_pattern_dashed s \<and> length s = 37"
  proof
    assume l: "s \<noteq> [] \<and> last s = CHR 0x0A \<and> spec_uuid_dashed (butlast s)"
    then have len: "length s = 37"
      by (cases s rule: rev_cases) (simp_all add: spec_uuid_dashed_def)
    with l last_is_nth [of s 36] dashed_with_line_feed [OF len]
    show "re_match True uuid_pattern_dashed s \<and> length s = 37"
      by (simp add: dashed_conditions)
  next
    assume r: "re_match True uuid_pattern_dashed s \<and> length s = 37"
    then have len: "length s = 37" by simp
    with r last_is_nth [of s 36] dashed_with_line_feed [OF len]
    show "s \<noteq> [] \<and> last s = CHR 0x0A \<and> spec_uuid_dashed (butlast s)"
      by (auto simp: dashed_conditions)
  qed
  have d: "s \<noteq> [] \<and> last s = CHR 0x0A \<and> spec_uuid_nodash (butlast s)
       \<longleftrightarrow> re_match True uuid_pattern_nodash s \<and> length s = 33"
  proof
    assume l: "s \<noteq> [] \<and> last s = CHR 0x0A \<and> spec_uuid_nodash (butlast s)"
    then have len: "length s = 33"
      by (cases s rule: rev_cases) (simp_all add: spec_uuid_nodash_def)
    with l last_is_nth [of s 32] nodash_with_line_feed [OF len]
    show "re_match True uuid_pattern_nodash s \<and> length s = 33"
      by (simp add: nodash_conditions)
  next
    assume r: "re_match True uuid_pattern_nodash s \<and> length s = 33"
    then have len: "length s = 33" by simp
    with r last_is_nth [of s 32] nodash_with_line_feed [OF len]
    show "s \<noteq> [] \<and> last s = CHR 0x0A \<and> spec_uuid_nodash (butlast s)"
      by (auto simp: nodash_conditions)
  qed
  have e: "re_match True uuid_pattern_dashed s \<longrightarrow> length s = 36 \<or> length s = 37"
    by (auto simp: dashed_conditions)
  have f: "re_match True uuid_pattern_nodash s \<longrightarrow> length s = 32 \<or> length s = 33"
    by (auto simp: nodash_conditions)
  show ?thesis
    unfolding is_valid_uuid_def spec_uuid_def using a b c d e f by blast
qed

text \<open>The examples of the specification.\<close>

lemma uuid_examples:
  "is_valid_uuid ''550e8400-e29b-41d4-a716-446655440000''"
  "is_valid_uuid ''550e8400e29b41d4a716446655440000''"
  "\<not> is_valid_uuid ''550e8400-e29b-41d4-a716''"
  by code_simp+

lemma uuid_example_error:
  "template_uuid_check self (template_with_uuid ''550e8400-e29b-41d4-a716'')
     = Inr (add_error (msg_invalid_uuid ''550e8400-e29b-41d4-a716'') self)"
  using uuid_examples(3)
  by (simp add: template_uuid_check_def template_with_uuid_def leaf_def find_child_def)

text \<open>
  Claim C6 fails on the code. The format check accepts the two shapes, and also each of
  them followed by one line feed (lemma \<open>is_valid_uuid_shapes\<close>): \<open>$\<close> matches before a
  final line feed. A uuid text of 32 hexadecimal digits and a line feed has neither
  shape, yet it is accepted and the template check records no error for it.
\<close>

theorem uuid_with_line_feed_accepted:
  "is_valid_uuid (''550e8400e29b41d4a716446655440000'' @ [CHR 0x0A])
   \<and> \<not> spec_uuid (''550e8400e29b41d4a716446655440000'' @ [CHR 0x0A])
   \<and> template_uuid_check new_validator
         (template_with_uuid (''550e8400e29b41d4a716446655440000'' @ [CHR 0x0A]))
       = Inr new_validator"
  by code_simp

subsection \<open>Macro names\<close>

lemma in_class_macro:
  "in_class False (Ranges [(CHR ''A'', CHR ''Z''), (CHR ''0'', CHR ''9''), (CHR ''_'', CHR ''_'')]) c
     = macro_char c"
  using ord_inject [of c "CHR ''_''"] by (auto simp: macro_char_def in_range_def)

lemma match_plus:
  "match_here ic (OneOrMore k # p) s \<longleftrightarrow>
     (\<exists>n. 0 < n \<and> n \<le> length s \<and> list_all (in_class ic k) (take n s)
          \<and> match_here ic p (drop n s))"
proof (induction s)
  case Nil
  show ?case by simp
next
  case (Cons c t)
  show ?case
  proof
    assume "match_here ic (OneOrMore k # p) (c # t)"
    then have c: "in_class ic k c"
      and d: "match_here ic (OneOrMore k # p) t \<or> match_here ic p t"
      by simp_all
    from d show "\<exists>n. 0 < n \<and> n \<le> length (c # t) \<and> list_all (in_class ic k) (take n (c # t))
          \<and> match_here ic p (drop n (c # t))"
    proof
      assume "match_here ic (OneOrMore k # p) t"
      with Cons.IH obtain n where "0 < n" "n \<le> length t"
        "list_all (in_class ic k) (take n t)" "match_here ic p (drop n t)"
        by blast
      with c show ?thesis
        by (intro exI [of _ "Suc n"]) simp
    next
      assume "match_here ic p t"
      with c show ?thesis
        by (intro exI [of _ "Suc 0"]) simp
    qed
  next
    assume "\<exists>n. 0 < n \<and> n \<le> length (c # t) \<and> list_all (in_class ic k) (take n (c # t))
          \<and> match_here ic p (drop n (c # t))"
    then obtain n where n: "0 < n" "n \<le> length (c # t)"
      "list_all (in_class ic k) (take n (c # t))" "match_here ic p (drop n (c # t))"
      by blast
    then obtain m where m: "n = Suc m"
      by (cases n) simp_all
    from n m have c: "in_class ic k c" and tk: "list_all (in_class ic k) (take m t)"
      and dr: "match_here ic p (drop m t)" and le: "m \<le> length t"
      by simp_all
    consider (zero) "m = 0" | (pos) "0 < m"
      by blast
    then show "match_here ic (OneOrMore k # p) (c # t)"
    proof cases
      case zero
      with c dr show ?thesis by simp
    next
      case pos
      with tk dr le Cons.IH have "match_here ic (OneOrMore k # p) t"
        by blast
      with c show ?thesis by simp
    qed
  qed
qed

lemma match_close_dollar:
  "match_here False [One (Lit (CHR ''}'')), Dollar] v \<longleftrightarrow> v = ''}'' \<or> v = ''}'' @ [CHR 0x0A]"
  by (cases v) auto

lemma macro_conditions:
  "re_match False macro_pattern s \<longleftrightarrow>
     (\<exists>body. body \<noteq> [] \<and> list_all macro_char body
        \<and> (s = ''{$'' @ body @ ''}'' \<or> s = ''{$'' @ body @ ''}'' @ [CHR 0x0A]))"
proof
  assume "re_match False macro_pattern s"
  then obtain u where s: "s = CHR ''{'' # CHR ''$'' # u"
    and u: "match_here False
       [OneOrMore (Ranges [(CHR ''A'', CHR ''Z''), (CHR ''0'', CHR ''9''), (CHR ''_'', CHR ''_'')]),
        One (Lit (CHR ''}'')), Dollar] u"
    by (auto simp: re_match_def macro_pattern_def split: list.splits)
  from u obtain n where n: "0 < n" "n \<le> length u" "list_all macro_char (take n u)"
    "drop n u = ''}'' \<or> drop n u = ''}'' @ [CHR 0x0A]"
    unfolding match_plus match_close_dollar
    by (auto simp: in_class_macro [abs_def])
  have "u = take n u @ ''}'' \<or> u = take n u @ ''}'' @ [CHR 0x0A]"
    using append_take_drop_id [of n u] n(4) by metis
  with s n show "\<exists>body. body \<noteq> [] \<and> list_all macro_char body
        \<and> (s = ''{$'' @ body @ ''}'' \<or> s = ''{$'' @ body @ ''}'' @ [CHR 0x0A])"
    by (intro exI [of _ "take n u"]) auto
next
  assume "\<exists>body. body \<noteq> [] \<and> list_all macro_char body
        \<and> (s = ''{$'' @ body @ ''}'' \<or> s = ''{$'' @ body @ ''}'' @ [CHR 0x0A])"
  then obtain body where b: "body \<noteq> []" "list_all macro_char body"
    "s = ''{$'' @ body @ ''}'' \<or> s = ''{$'' @ body @ ''}'' @ [CHR 0x0A]"
    by blast
  have "match_here False
       [OneOrMore (Ranges [(CHR ''A'', CHR ''Z''), (CHR ''0'', CHR ''9''), (CHR ''_'', CHR ''_'')]),
        One (Lit (CHR ''}'')), Dollar] (body @ v)"
    if "v = ''}'' \<or> v = ''}'' @ [CHR 0x0A]" for v
    unfolding match_plus match_close_dollar
    using b that by (intro exI [of _ "length body"]) (auto simp: in_class_macro [abs_def])
  with b(3) show "re_match False macro_pattern s"
    by (auto simp: re_match_def macro_pattern_def)
qed

lemma spec_macro_name_iff:
  "spec_macro_name s \<longleftrightarrow>
     (\<exists>body. body \<noteq> [] \<and> list_all macro_char body \<and> s = ''{$'' @ body @ ''}'')"
proof
  assume a: "spec_macro_name s"
  then have len: "4 \<le> length s" and t: "take 2 s = ''{$''" and l: "last s = CHR ''}''"
    and b: "list_all macro_char (butlast (drop 2 s))"
    by (simp_all add: spec_macro_name_def)
  from len have ne: "drop 2 s \<noteq> []" by simp
  have "butlast (drop 2 s) @ ''}'' = drop 2 s"
    using append_butlast_last_id [OF ne] len l by simp
  with t have "s = ''{$'' @ butlast (drop 2 s) @ ''}''"
    by (metis append_take_drop_id)
  moreover have "butlast (drop 2 s) \<noteq> []"
    using len by (simp add: butlast_conv_take)
  ultimately show "\<exists>body. body \<noteq> [] \<and> list_all macro_char body \<and> s = ''{$'' @ body @ ''}''"
    using b by blast
next
  assume "\<exists>body. body \<noteq> [] \<and> list_all macro_char body \<and> s = ''{$'' @ body @ ''}''"
  then obtain body where "body \<noteq> []" "list_all macro_char body" "s = ''{$'' @ body @ ''}''"
    by blast
  then show "spec_macro_name s"
    by (cases body) (simp_all add: spec_macro_name_def butlast_append)
qed

lemma macro_convention_shapes:
  "re_match False macro_pattern s \<longleftrightarrow>
     spec_macro_name s \<or> (s \<noteq> [] \<and> last s = CHR 0x0A \<and> spec_macro_name (butlast s))"
proof -
  have "(s \<noteq> [] \<and> last s = CHR 0x0A \<and> spec_macro_name (butlast s)) \<longleftrightarrow>
     (\<exists>body. body \<noteq> [] \<and> list_all macro_char body \<and> s = ''{$'' @ body @ ''}'' @ [CHR 0x0A])"
    unfolding spec_macro_name_iff
    by (cases s rule: rev_cases) auto
  then show ?thesis
    unfolding macro_conditions spec_macro_name_iff by blast
qed

text \<open>The examples of the specification: one name passes, three get the warning.\<close>

lemma macro_examples:
  "re_match False macro_pattern ''{$MY_MACRO}''"
  "\<not> re_match False macro_pattern ''{$my_macro}''"
  "\<not> re_match False macro_pattern ''{MY_MACRO}''"
  "\<not> re_match False macro_pattern ''{$MY-MACRO}''"
  by code_simp+

lemma macro_example_findings:
  "macro_name_check {} self (macro_named ''{$MY_MACRO}'') = Inr ({''{$MY_MACRO}''}, self)"
  "macro_name_check {} self (macro_named ''{$my_macro}'')
     = Inr ({''{$my_macro}''}, add_warning (msg_macro_convention ''{$my_macro}'') self)"
  "macro_name_check {} self (macro_named ''{MY_MACRO}'')
     = Inr ({''{MY_MACRO}''}, add_warning (msg_macro_convention ''{MY_MACRO}'') self)"
  "macro_name_check {} self (macro_named ''{$MY-MACRO}'')
     = Inr ({''{$MY-MACRO}''}, add_warning (msg_macro_convention ''{$MY-MACRO}'') self)"
  using macro_examples
  by (simp_all add: macro_name_check_def macro_named_def leaf_def find_child_def)

text \<open>A name element without text: \<open>re.match\<close> raises \<open>TypeError\<close>.\<close>

lemma macro_without_name_text_raises:
  "macro_name_check seen self macro_without_name_text = Inl TypeError"
  by (simp add: macro_name_check_def macro_without_name_text_def find_child_def)

text \<open>
  Claim C7 fails on the code. The convention check accepts the names of the convention,
  and also each of them followed by one line feed (lemma \<open>macro_convention_shapes\<close>):
  \<open>$\<close> matches before a final line feed. The name \<open>{$MY_MACRO}\<close> followed by a line feed
  is not of the form \<open>{$...}\<close>, yet it is accepted and no warning is recorded for it.
\<close>

theorem macro_name_with_line_feed_accepted:
  "re_match False macro_pattern (''{$MY_MACRO}'' @ [CHR 0x0A])
   \<and> \<not> spec_macro_name (''{$MY_MACRO}'' @ [CHR 0x0A])
   \<and> validate_macros new_validator [macro_named (''{$MY_MACRO}'' @ [CHR 0x0A])]
       = Inr new_validator"
  by code_simp

end
